theory Spec2Isabelle
  imports Complex_Main "HOL-Library.Multiset"
begin

section \<open>The ledger store (models.py)\<close>

text \<open>
  Every table of \<^verbatim>\<open>models.py\<close> is a list of rows in insertion order, every row a
  record with the columns of the mapped class. Identifiers (\<^verbatim>\<open>str(uuid4())\<close>) and
  session tokens are strings. A \<^verbatim>\<open>datetime\<close> is the number of microseconds since
  the epoch (naive UTC, the resolution of Python's \<^verbatim>\<open>datetime\<close>). A \<^verbatim>\<open>Float\<close>
  column is a real number: amounts are added and compared exactly, the rounding of
  IEEE doubles is not part of the model.
\<close>

type_synonym ident = string
type_synonym datetime = int

record User =
  u_id :: ident
  u_email :: string
  u_username :: string
  u_password_hash :: string
  u_is_active :: bool
  u_created_at :: datetime

record AuthAccount =
  aa_id :: ident
  aa_user_id :: ident
  aa_provider :: string
  aa_provider_id :: string
  aa_created_at :: datetime

record AdUnit =
  au_id :: ident
  au_name :: string
  au_reward_min :: real
  au_reward_max :: real
  au_cooldown_seconds :: int
  au_daily_cap :: int
  au_is_active :: bool

record AdView =
  av_id :: ident
  av_user_id :: ident
  av_ad_unit_id :: ident
  av_session_token :: string
  av_started_at :: datetime
  av_completed_at :: "datetime option"
  av_rewarded_amount :: "real option"
  av_status :: string

record Balance =
  b_user_id :: ident
  b_available :: real
  b_pending :: real
  b_updated_at :: datetime

record Transaction =
  t_id :: ident
  t_user_id :: ident
  t_type :: string
  t_source :: string
  t_amount :: real
  t_occurred_at :: datetime

record Withdrawal =
  w_id :: ident
  w_user_id :: ident
  w_amount :: real
  w_fee :: real
  w_payout_method :: string
  w_destination :: string
  w_status :: string
  w_created_at :: datetime
  w_reviewed_at :: "datetime option"
  w_review_notes :: "string option"

record db =
  users :: "User list"
  auth_accounts :: "AuthAccount list"
  ad_units :: "AdUnit list"
  ad_views :: "AdView list"
  balances :: "Balance list"
  transactions :: "Transaction list"
  withdrawals :: "Withdrawal list"

text \<open>
  What a request can end with besides its response: an \<^verbatim>\<open>HTTPException\<close> raised by
  the handler (status code and detail), pydantic rejecting the payload, the store
  refusing an insert (primary key or unique column), and an attribute read on
  \<^verbatim>\<open>None\<close>. The last three are not caught by the handlers.
\<close>

datatype error =
    HTTPException nat string
  | RequestValidationError
  | IntegrityError
  | AttributeError

subsection \<open>Lookups\<close>

definition db_get_User :: "db \<Rightarrow> ident \<Rightarrow> User option" where
  "db_get_User s i = find (\<lambda>u. u_id u = i) (users s)"

definition db_get_AdUnit :: "db \<Rightarrow> ident \<Rightarrow> AdUnit option" where
  "db_get_AdUnit s i = find (\<lambda>a. au_id a = i) (ad_units s)"

definition db_get_Withdrawal :: "db \<Rightarrow> ident \<Rightarrow> Withdrawal option" where
  "db_get_Withdrawal s i = find (\<lambda>w. w_id w = i) (withdrawals s)"

text \<open>The relationship \<^verbatim>\<open>user.balance\<close> (\<^verbatim>\<open>uselist=False\<close>).\<close>

definition user_balance :: "db \<Rightarrow> ident \<Rightarrow> Balance option" where
  "user_balance s uid = find (\<lambda>b. b_user_id b = uid) (balances s)"

text \<open>
  \<^verbatim>\<open>order_by(col.desc())\<close>: rows with equal keys stay in insertion order (the
  store does not promise an order among them).
\<close>

definition order_by_desc :: "('a \<Rightarrow> int) \<Rightarrow> 'a list \<Rightarrow> 'a list" where
  "order_by_desc key xs = sort_key (\<lambda>x. - key x) xs"

subsection \<open>Inserts and updates\<close>

text \<open>
  An insert fails with \<^verbatim>\<open>IntegrityError\<close> when the primary key or a unique column
  is already taken: \<^verbatim>\<open>users.id\<close>, \<^verbatim>\<open>users.email\<close>, \<^verbatim>\<open>auth_accounts.id\<close>,
  \<^verbatim>\<open>auth_accounts.provider_id\<close>, \<^verbatim>\<open>ad_views.id\<close>, \<^verbatim>\<open>ad_views.session_token\<close>,
  \<^verbatim>\<open>balances.user_id\<close>, \<^verbatim>\<open>transactions.id\<close>, \<^verbatim>\<open>withdrawals.id\<close>.
\<close>

definition insert_User :: "db \<Rightarrow> User \<Rightarrow> error + db" where
  "insert_User s u =
     (if \<exists>x \<in> set (users s). u_id x = u_id u \<or> u_email x = u_email u
      then Inl IntegrityError
      else Inr (s\<lparr>users := users s @ [u]\<rparr>))"

definition insert_AuthAccount :: "db \<Rightarrow> AuthAccount \<Rightarrow> error + db" where
  "insert_AuthAccount s a =
     (if \<exists>x \<in> set (auth_accounts s). aa_id x = aa_id a \<or> aa_provider_id x = aa_provider_id a
      then Inl IntegrityError
      else Inr (s\<lparr>auth_accounts := auth_accounts s @ [a]\<rparr>))"

definition insert_AdView :: "db \<Rightarrow> AdView \<Rightarrow> error + db" where
  "insert_AdView s v =
     (if \<exists>x \<in> set (ad_views s). av_id x = av_id v \<or> av_session_token x = av_session_token v
      then Inl IntegrityError
      else Inr (s\<lparr>ad_views := ad_views s @ [v]\<rparr>))"

definition insert_Balance :: "db \<Rightarrow> Balance \<Rightarrow> error + db" where
  "insert_Balance s b =
     (if \<exists>x \<in> set (balances s). b_user_id x = b_user_id b
      then Inl IntegrityError
      else Inr (s\<lparr>balances := balances s @ [b]\<rparr>))"

definition insert_Transaction :: "db \<Rightarrow> Transaction \<Rightarrow> error + db" where
  "insert_Transaction s t =
     (if \<exists>x \<in> set (transactions s). t_id x = t_id t
      then Inl IntegrityError
      else Inr (s\<lparr>transactions := transactions s @ [t]\<rparr>))"

definition insert_Withdrawal :: "db \<Rightarrow> Withdrawal \<Rightarrow> error + db" where
  "insert_Withdrawal s w =
     (if \<exists>x \<in> set (withdrawals s). w_id x = w_id w
      then Inl IntegrityError
      else Inr (s\<lparr>withdrawals := withdrawals s @ [w]\<rparr>))"

text \<open>An update of a loaded row is written back by primary key.\<close>

definition update_AdView :: "db \<Rightarrow> ident \<Rightarrow> (AdView \<Rightarrow> AdView) \<Rightarrow> db" where
  "update_AdView s i f = s\<lparr>ad_views := map (\<lambda>v. if av_id v = i then f v else v) (ad_views s)\<rparr>"

definition update_Balance :: "db \<Rightarrow> ident \<Rightarrow> (Balance \<Rightarrow> Balance) \<Rightarrow> db" where
  "update_Balance s uid f =
     s\<lparr>balances := map (\<lambda>b. if b_user_id b = uid then f b else b) (balances s)\<rparr>"

definition update_Withdrawal :: "db \<Rightarrow> ident \<Rightarrow> (Withdrawal \<Rightarrow> Withdrawal) \<Rightarrow> db" where
  "update_Withdrawal s i f =
     s\<lparr>withdrawals := map (\<lambda>w. if w_id w = i then f w else w) (withdrawals s)\<rparr>"

section \<open>The request handlers (main.py)\<close>

text \<open>
  A handler takes the store and returns its outcome together with the store after the
  request: the store it was given when the request fails (nothing is committed), the
  committed store otherwise. What the handler draws from its environment is an
  argument: the clock (\<^verbatim>\<open>datetime.utcnow()\<close>, one reading per request), the fresh
  values of \<^verbatim>\<open>uuid4()\<close>, the draw of \<^verbatim>\<open>random.random()\<close>, the password hash.
\<close>

definition ADMIN_TOKEN :: string where
  "ADMIN_TOKEN = ''admin_demo''"

record AuthRegisterRequest =
  rr_email :: string
  rr_password :: string
  rr_username :: string

text \<open>
  The \<^verbatim>\<open>Field\<close> constraints of \<^verbatim>\<open>AuthRegisterRequest\<close>. The syntax check of
  \<^verbatim>\<open>EmailStr\<close> is the validation library's and is not modelled: \<open>rr_email\<close> is the
  string the handler receives.
\<close>

definition AuthRegisterRequest_valid :: "AuthRegisterRequest \<Rightarrow> bool" where
  "AuthRegisterRequest_valid p \<longleftrightarrow>
     8 \<le> length (rr_password p) \<and> 3 \<le> length (rr_username p) \<and> length (rr_username p) \<le> 32"

record AuthRegisterResponse =
  arr_message :: string
  arr_user_id :: ident
  arr_verification_required :: bool

record TokenResponse =
  tr_access_token :: string
  tr_token_type :: string
  tr_user_id :: ident

record BalanceResponse =
  br_balance :: real
  br_pending :: real
  br_currency :: string

record AdStartResponse =
  asr_session_token :: string
  asr_cooldown_seconds :: int

record AdCompleteResponse =
  acr_reward :: real
  acr_new_balance :: real

record EarningsItem =
  ei_transaction_id :: ident
  ei_amount :: real
  ei_occurred_at :: datetime
  ei_source :: string

record WithdrawRequest =
  wr_amount :: real
  wr_payout_method :: string
  wr_destination :: string

record WithdrawResponse =
  wresp_withdrawal_id :: ident
  wresp_status :: string
  wresp_queued_at :: datetime

record AdminWithdrawalReviewRequest =
  rv_status :: string
  rv_review_notes :: "string option"

definition AdminWithdrawalReviewRequest_valid :: "AdminWithdrawalReviewRequest \<Rightarrow> bool" where
  "AdminWithdrawalReviewRequest_valid p \<longleftrightarrow> rv_status p = ''approved'' \<or> rv_status p = ''rejected''"

definition get_user :: "db \<Rightarrow> ident \<Rightarrow> error + User" where
  "get_user s user_id =
     (case db_get_User s user_id of
        None \<Rightarrow> Inl (HTTPException 404 ''User not found'')
      | Some user \<Rightarrow> Inr user)"

definition require_admin :: "string \<Rightarrow> error + unit" where
  "require_admin admin_token =
     (if admin_token \<noteq> ADMIN_TOKEN then Inl (HTTPException 403 ''Not authorized'') else Inr ())"

subsection \<open>Account service\<close>

definition register ::
  "(string \<Rightarrow> string) \<Rightarrow> datetime \<Rightarrow> ident \<Rightarrow> db \<Rightarrow> AuthRegisterRequest
     \<Rightarrow> (error + AuthRegisterResponse) \<times> db" where
  "register pwd_hash now new_id s payload =
     (if \<not> AuthRegisterRequest_valid payload then (Inl RequestValidationError, s)
      else if find (\<lambda>u. u_email u = rr_email payload) (users s) \<noteq> None
      then (Inl (HTTPException 400 ''Email already used''), s)
      else
        let user = \<lparr>u_id = new_id, u_email = rr_email payload, u_username = rr_username payload,
                    u_password_hash = pwd_hash (rr_password payload), u_is_active = True,
                    u_created_at = now\<rparr>
        in case insert_User s user of
             Inl e \<Rightarrow> (Inl e, s)
           | Inr s1 \<Rightarrow>
               (case insert_Balance s1 \<lparr>b_user_id = u_id user, b_available = 0, b_pending = 0,
                                        b_updated_at = now\<rparr> of
                  Inl e \<Rightarrow> (Inl e, s)
                | Inr s2 \<Rightarrow>
                    (Inr \<lparr>arr_message = ''Registered successfully'', arr_user_id = u_id user,
                          arr_verification_required = True\<rparr>, s2)))"

definition google_email :: "string \<Rightarrow> string" where
  "google_email id_token = ''google_'' @ take 8 id_token @ ''@example.com''"

definition google_username :: "string \<Rightarrow> string" where
  "google_username id_token = ''google_'' @ take 8 id_token"

text \<open>
  \<open>new_hash\<close> is \<^verbatim>\<open>pwd_context.hash(uuid4().hex)\<close>, \<open>new_access\<close> the bearer
  credential \<^verbatim>\<open>uuid4().hex\<close>.
\<close>

definition google_auth ::
  "datetime \<Rightarrow> ident \<Rightarrow> ident \<Rightarrow> string \<Rightarrow> string \<Rightarrow> db \<Rightarrow> string
     \<Rightarrow> (error + TokenResponse) \<times> db" where
  "google_auth now new_id new_auth_id new_hash new_access s id_token =
     (if id_token = [] then (Inl (HTTPException 400 ''Invalid token''), s)
      else
        case find (\<lambda>a. aa_provider a = ''google'' \<and> aa_provider_id a = id_token)
               (auth_accounts s) of
          Some auth_account \<Rightarrow>
            (case db_get_User s (aa_user_id auth_account) of
               None \<Rightarrow> (Inl AttributeError, s)
             | Some user \<Rightarrow>
                 (Inr \<lparr>tr_access_token = new_access, tr_token_type = ''bearer'',
                       tr_user_id = u_id user\<rparr>, s))
        | None \<Rightarrow>
            let user = \<lparr>u_id = new_id, u_email = google_email id_token,
                        u_username = google_username id_token, u_password_hash = new_hash,
                        u_is_active = True, u_created_at = now\<rparr>
            in case insert_User s user of
                 Inl e \<Rightarrow> (Inl e, s)
               | Inr s1 \<Rightarrow>
                   (case insert_Balance s1 \<lparr>b_user_id = u_id user, b_available = 0,
                                            b_pending = 0, b_updated_at = now\<rparr> of
                      Inl e \<Rightarrow> (Inl e, s)
                    | Inr s2 \<Rightarrow>
                        (case insert_AuthAccount s2
                                \<lparr>aa_id = new_auth_id, aa_user_id = u_id user,
                                 aa_provider = ''google'', aa_provider_id = id_token,
                                 aa_created_at = now\<rparr> of
                           Inl e \<Rightarrow> (Inl e, s)
                         | Inr s3 \<Rightarrow>
                             (Inr \<lparr>tr_access_token = new_access, tr_token_type = ''bearer'',
                                   tr_user_id = u_id user\<rparr>, s3))))"

definition get_balance :: "db \<Rightarrow> ident \<Rightarrow> error + BalanceResponse" where
  "get_balance s user_id =
     (case get_user s user_id of
        Inl e \<Rightarrow> Inl e
      | Inr user \<Rightarrow>
          (case user_balance s (u_id user) of
             None \<Rightarrow> Inl AttributeError
           | Some balance \<Rightarrow>
               Inr \<lparr>br_balance = b_available balance, br_pending = b_pending balance,
                    br_currency = ''USD''\<rparr>))"

definition get_history :: "db \<Rightarrow> ident \<Rightarrow> (error + EarningsItem list) \<times> db" where
  "get_history s user_id =
     (case get_user s user_id of
        Inl e \<Rightarrow> (Inl e, s)
      | Inr user \<Rightarrow>
          let transactions =
                take 20 (order_by_desc t_occurred_at
                           (filter (\<lambda>t. t_user_id t = u_id user) (transactions s)))
          in (Inr (map (\<lambda>transaction.
                          \<lparr>ei_transaction_id = t_id transaction, ei_amount = t_amount transaction,
                           ei_occurred_at = t_occurred_at transaction,
                           ei_source = t_source transaction\<rparr>) transactions), s))"

subsection \<open>Reward engine\<close>

definition usec_per_second :: int where
  "usec_per_second = 1000000"

definition usec_per_day :: int where
  "usec_per_day = 86400 * usec_per_second"

text \<open>\<^verbatim>\<open>timedelta(seconds=n)\<close>, in microseconds.\<close>

definition timedelta_seconds :: "int \<Rightarrow> int" where
  "timedelta_seconds n = n * usec_per_second"

text \<open>\<^verbatim>\<open>now.replace(hour=0, minute=0, second=0, microsecond=0)\<close>.\<close>

definition start_of_day :: "datetime \<Rightarrow> datetime" where
  "start_of_day now = now - now mod usec_per_day"

definition recent_view :: "db \<Rightarrow> ident \<Rightarrow> AdView option" where
  "recent_view s uid =
     (case order_by_desc av_started_at (filter (\<lambda>v. av_user_id v = uid) (ad_views s)) of
        [] \<Rightarrow> None
      | v # _ \<Rightarrow> Some v)"

definition cooldown_active :: "db \<Rightarrow> ident \<Rightarrow> AdUnit \<Rightarrow> datetime \<Rightarrow> bool" where
  "cooldown_active s uid ad_unit now =
     (case recent_view s uid of
        None \<Rightarrow> False
      | Some rv \<Rightarrow> now - av_started_at rv < timedelta_seconds (au_cooldown_seconds ad_unit))"

definition daily_count :: "db \<Rightarrow> ident \<Rightarrow> datetime \<Rightarrow> nat" where
  "daily_count s uid now =
     length (filter (\<lambda>v. av_user_id v = uid \<and> av_status v = ''completed''
                          \<and> start_of_day now \<le> av_started_at v) (ad_views s))"

definition ads_start ::
  "datetime \<Rightarrow> string \<Rightarrow> ident \<Rightarrow> db \<Rightarrow> ident \<Rightarrow> ident \<Rightarrow> (error + AdStartResponse) \<times> db" where
  "ads_start now session_token new_id s user_id ad_unit_id =
     (case get_user s user_id of
        Inl e \<Rightarrow> (Inl e, s)
      | Inr user \<Rightarrow>
          (case db_get_AdUnit s ad_unit_id of
             None \<Rightarrow> (Inl (HTTPException 404 ''Ad unit not found''), s)
           | Some ad_unit \<Rightarrow>
               if \<not> au_is_active ad_unit
               then (Inl (HTTPException 404 ''Ad unit not found''), s)
               else if cooldown_active s (u_id user) ad_unit now
               then (Inl (HTTPException 429 ''Cooldown active''), s)
               else if au_daily_cap ad_unit \<le> int (daily_count s (u_id user) now)
               then (Inl (HTTPException 429 ''Daily cap reached''), s)
               else
                 (case insert_AdView s
                         \<lparr>av_id = new_id, av_user_id = u_id user, av_ad_unit_id = au_id ad_unit,
                          av_session_token = session_token, av_started_at = now,
                          av_completed_at = None, av_rewarded_amount = None,
                          av_status = ''started''\<rparr> of
                    Inl e \<Rightarrow> (Inl e, s)
                  | Inr s1 \<Rightarrow>
                      (Inr \<lparr>asr_session_token = session_token,
                            asr_cooldown_seconds = au_cooldown_seconds ad_unit\<rparr>, s1))))"

text \<open>
  \<^verbatim>\<open>random.uniform(a, b)\<close> is \<^verbatim>\<open>a + (b - a) * random()\<close>, with \<^verbatim>\<open>random()\<close> in
  \<open>[0, 1)\<close>; \<open>r\<close> is that draw.
\<close>

definition uniform :: "real \<Rightarrow> real \<Rightarrow> real \<Rightarrow> real" where
  "uniform a b r = a + (b - a) * r"

definition ads_complete ::
  "datetime \<Rightarrow> real \<Rightarrow> ident \<Rightarrow> db \<Rightarrow> ident \<Rightarrow> string \<Rightarrow> (error + AdCompleteResponse) \<times> db" where
  "ads_complete now r new_id s user_id session_token =
     (case get_user s user_id of
        Inl e \<Rightarrow> (Inl e, s)
      | Inr user \<Rightarrow>
          (case find (\<lambda>v. av_session_token v = session_token) (ad_views s) of
             None \<Rightarrow> (Inl (HTTPException 404 ''Session not found''), s)
           | Some ad_view \<Rightarrow>
               if av_user_id ad_view \<noteq> u_id user
               then (Inl (HTTPException 404 ''Session not found''), s)
               else if av_status ad_view \<noteq> ''started''
               then (Inl (HTTPException 400 ''Already completed''), s)
               else
                 let reward = (case db_get_AdUnit s (av_ad_unit_id ad_view) of
                                 Some ad_unit \<Rightarrow>
                                   uniform (au_reward_min ad_unit) (au_reward_max ad_unit) r
                               | None \<Rightarrow> 0);
                     s1 = update_AdView s (av_id ad_view)
                            (\<lambda>v. v\<lparr>av_status := ''completed'', av_completed_at := Some now,
                                   av_rewarded_amount := Some reward\<rparr>)
                 in case user_balance s (u_id user) of
                      None \<Rightarrow> (Inl AttributeError, s)
                    | Some balance \<Rightarrow>
                        let s2 = update_Balance s1 (u_id user)
                                   (\<lambda>b. b\<lparr>b_available := b_available b + reward,
                                          b_updated_at := now\<rparr>)
                        in case insert_Transaction s2
                                  \<lparr>t_id = new_id, t_user_id = u_id user, t_type = ''earn'',
                                   t_source = ''ad_view'', t_amount = reward,
                                   t_occurred_at = now\<rparr> of
                             Inl e \<Rightarrow> (Inl e, s)
                           | Inr s3 \<Rightarrow>
                               (Inr \<lparr>acr_reward = reward,
                                     acr_new_balance = b_available balance + reward\<rparr>, s3)))"

subsection \<open>Withdrawal settlement\<close>

definition request_withdraw ::
  "datetime \<Rightarrow> ident \<Rightarrow> ident \<Rightarrow> db \<Rightarrow> ident \<Rightarrow> WithdrawRequest
     \<Rightarrow> (error + WithdrawResponse) \<times> db" where
  "request_withdraw now new_wid new_tid s user_id payload =
     (case get_user s user_id of
        Inl e \<Rightarrow> (Inl e, s)
      | Inr user \<Rightarrow>
          if wr_amount payload < 10 then (Inl (HTTPException 400 ''Minimum is $10''), s)
          else
            (case user_balance s (u_id user) of
               None \<Rightarrow> (Inl AttributeError, s)
             | Some balance \<Rightarrow>
                 if b_available balance < wr_amount payload
                 then (Inl (HTTPException 400 ''Insufficient balance''), s)
                 else
                   let s1 = update_Balance s (u_id user)
                              (\<lambda>b. b\<lparr>b_available := b_available b - wr_amount payload,
                                     b_pending := b_pending b + wr_amount payload,
                                     b_updated_at := now\<rparr>);
                       withdrawal =
                         \<lparr>w_id = new_wid, w_user_id = u_id user, w_amount = wr_amount payload,
                          w_fee = 2 / 10, w_payout_method = wr_payout_method payload,
                          w_destination = wr_destination payload, w_status = ''pending'',
                          w_created_at = now, w_reviewed_at = None, w_review_notes = None\<rparr>
                   in case insert_Withdrawal s1 withdrawal of
                        Inl e \<Rightarrow> (Inl e, s)
                      | Inr s2 \<Rightarrow>
                          (case insert_Transaction s2
                                  \<lparr>t_id = new_tid, t_user_id = u_id user, t_type = ''spend'',
                                   t_source = ''withdrawal'', t_amount = - wr_amount payload,
                                   t_occurred_at = now\<rparr> of
                             Inl e \<Rightarrow> (Inl e, s)
                           | Inr s3 \<Rightarrow>
                               (Inr \<lparr>wresp_withdrawal_id = w_id withdrawal,
                                     wresp_status = w_status withdrawal,
                                     wresp_queued_at = w_created_at withdrawal\<rparr>, s3))))"

definition list_withdrawals :: "db \<Rightarrow> ident \<Rightarrow> error + WithdrawResponse list" where
  "list_withdrawals s user_id =
     (case get_user s user_id of
        Inl e \<Rightarrow> Inl e
      | Inr user \<Rightarrow>
          Inr (map (\<lambda>withdrawal.
                      \<lparr>wresp_withdrawal_id = w_id withdrawal, wresp_status = w_status withdrawal,
                       wresp_queued_at = w_created_at withdrawal\<rparr>)
                 (filter (\<lambda>w. w_user_id w = u_id user) (withdrawals s))))"

definition review_withdrawal ::
  "datetime \<Rightarrow> db \<Rightarrow> string \<Rightarrow> ident \<Rightarrow> AdminWithdrawalReviewRequest
     \<Rightarrow> (error + WithdrawResponse) \<times> db" where
  "review_withdrawal now s admin_token withdrawal_id payload =
     (case require_admin admin_token of
        Inl e \<Rightarrow> (Inl e, s)
      | Inr _ \<Rightarrow>
          if \<not> AdminWithdrawalReviewRequest_valid payload then (Inl RequestValidationError, s)
          else
            (case db_get_Withdrawal s withdrawal_id of
               None \<Rightarrow> (Inl (HTTPException 404 ''Withdrawal not found''), s)
             | Some withdrawal \<Rightarrow>
                 (Inr \<lparr>wresp_withdrawal_id = w_id withdrawal, wresp_status = rv_status payload,
                       wresp_queued_at = w_created_at withdrawal\<rparr>,
                  update_Withdrawal s (w_id withdrawal)
                    (\<lambda>w. w\<lparr>w_status := rv_status payload, w_reviewed_at := Some now,
                           w_review_notes := rv_review_notes payload\<rparr>))))"

subsection \<open>Startup\<close>

text \<open>
  \<^verbatim>\<open>on_startup\<close> creates the tables and seeds the "Rewarded Video" unit (the column
  defaults for its id and \<^verbatim>\<open>is_active\<close>) when there is no ad unit yet.
\<close>

definition rewarded_video :: "ident \<Rightarrow> AdUnit" where
  "rewarded_video i =
     \<lparr>au_id = i, au_name = ''Rewarded Video'', au_reward_min = 2 / 1000, au_reward_max = 1 / 100,
      au_cooldown_seconds = 60, au_daily_cap = 30, au_is_active = True\<rparr>"

definition empty_db :: db where
  "empty_db = \<lparr>users = [], auth_accounts = [], ad_units = [], ad_views = [], balances = [],
               transactions = [], withdrawals = []\<rparr>"

definition on_startup :: "ident \<Rightarrow> db \<Rightarrow> db" where
  "on_startup new_id s =
     (case ad_units s of
        [] \<Rightarrow> s\<lparr>ad_units := [rewarded_video new_id]\<rparr>
      | _ # _ \<Rightarrow> s)"

section \<open>Vocabulary of the statements\<close>

subsection \<open>The rows a request writes\<close>

text \<open>
  The rows a successful request inserts or leaves behind, and the queries the handlers
  write inline, named so that the lemmas can refer to them.
\<close>

definition registered_user ::
  "(string \<Rightarrow> string) \<Rightarrow> datetime \<Rightarrow> ident \<Rightarrow> AuthRegisterRequest \<Rightarrow> User" where
  "registered_user pwd_hash now i p =
     \<lparr>u_id = i, u_email = rr_email p, u_username = rr_username p,
      u_password_hash = pwd_hash (rr_password p), u_is_active = True, u_created_at = now\<rparr>"

definition zero_balance :: "ident \<Rightarrow> datetime \<Rightarrow> Balance" where
  "zero_balance i now = \<lparr>b_user_id = i, b_available = 0, b_pending = 0, b_updated_at = now\<rparr>"

definition google_user :: "datetime \<Rightarrow> ident \<Rightarrow> string \<Rightarrow> string \<Rightarrow> User" where
  "google_user now i new_hash id_token =
     \<lparr>u_id = i, u_email = google_email id_token, u_username = google_username id_token,
      u_password_hash = new_hash, u_is_active = True, u_created_at = now\<rparr>"

definition google_account :: "datetime \<Rightarrow> ident \<Rightarrow> ident \<Rightarrow> string \<Rightarrow> AuthAccount" where
  "google_account now ai i id_token =
     \<lparr>aa_id = ai, aa_user_id = i, aa_provider = ''google'', aa_provider_id = id_token,
      aa_created_at = now\<rparr>"

definition find_google_account :: "db \<Rightarrow> string \<Rightarrow> AuthAccount option" where
  "find_google_account s id_token =
     find (\<lambda>a. aa_provider a = ''google'' \<and> aa_provider_id a = id_token) (auth_accounts s)"

definition started_view :: "ident \<Rightarrow> ident \<Rightarrow> ident \<Rightarrow> string \<Rightarrow> datetime \<Rightarrow> AdView" where
  "started_view vid uid aid tok now =
     \<lparr>av_id = vid, av_user_id = uid, av_ad_unit_id = aid, av_session_token = tok,
      av_started_at = now, av_completed_at = None, av_rewarded_amount = None,
      av_status = ''started''\<rparr>"


definition drawn_reward :: "db \<Rightarrow> AdView \<Rightarrow> real \<Rightarrow> real" where
  "drawn_reward s v r =
     (case db_get_AdUnit s (av_ad_unit_id v) of
        Some ad_unit \<Rightarrow> uniform (au_reward_min ad_unit) (au_reward_max ad_unit) r
      | None \<Rightarrow> 0)"

definition completed_view :: "datetime \<Rightarrow> real \<Rightarrow> AdView \<Rightarrow> AdView" where
  "completed_view now reward v =
     v\<lparr>av_status := ''completed'', av_completed_at := Some now, av_rewarded_amount := Some reward\<rparr>"

definition credited :: "datetime \<Rightarrow> real \<Rightarrow> Balance \<Rightarrow> Balance" where
  "credited now reward b = b\<lparr>b_available := b_available b + reward, b_updated_at := now\<rparr>"

definition earn_tx :: "ident \<Rightarrow> ident \<Rightarrow> real \<Rightarrow> datetime \<Rightarrow> Transaction" where
  "earn_tx tid uid reward now =
     \<lparr>t_id = tid, t_user_id = uid, t_type = ''earn'', t_source = ''ad_view'',
      t_amount = reward, t_occurred_at = now\<rparr>"

definition debited :: "datetime \<Rightarrow> real \<Rightarrow> Balance \<Rightarrow> Balance" where
  "debited now amount b =
     b\<lparr>b_available := b_available b - amount, b_pending := b_pending b + amount,
       b_updated_at := now\<rparr>"

definition spend_tx :: "ident \<Rightarrow> ident \<Rightarrow> real \<Rightarrow> datetime \<Rightarrow> Transaction" where
  "spend_tx tid uid amount now =
     \<lparr>t_id = tid, t_user_id = uid, t_type = ''spend'', t_source = ''withdrawal'',
      t_amount = - amount, t_occurred_at = now\<rparr>"

definition pending_withdrawal :: "ident \<Rightarrow> ident \<Rightarrow> WithdrawRequest \<Rightarrow> datetime \<Rightarrow> Withdrawal" where
  "pending_withdrawal wid uid p now =
     \<lparr>w_id = wid, w_user_id = uid, w_amount = wr_amount p, w_fee = 2 / 10,
      w_payout_method = wr_payout_method p, w_destination = wr_destination p,
      w_status = ''pending'', w_created_at = now, w_reviewed_at = None, w_review_notes = None\<rparr>"

definition reviewed :: "datetime \<Rightarrow> AdminWithdrawalReviewRequest \<Rightarrow> Withdrawal \<Rightarrow> Withdrawal" where
  "reviewed now p w =
     w\<lparr>w_status := rv_status p, w_reviewed_at := Some now, w_review_notes := rv_review_notes p\<rparr>"

definition earnings_item :: "Transaction \<Rightarrow> EarningsItem" where
  "earnings_item t =
     \<lparr>ei_transaction_id = t_id t, ei_amount = t_amount t, ei_occurred_at = t_occurred_at t,
      ei_source = t_source t\<rparr>"

subsection \<open>Sequences of requests\<close>

text \<open>
  The requests that write to the store, each with what it draws from its environment,
  and the store after a sequence of them. The read-only requests (balance, history,
  listings) return the store as it is and are left out.
\<close>

datatype request =
    Register "string \<Rightarrow> string" datetime ident AuthRegisterRequest
  | GoogleAuth datetime ident ident string string string
  | AdsStart datetime string ident ident ident
  | AdsComplete datetime real ident ident string
  | RequestWithdraw datetime ident ident ident WithdrawRequest
  | ReviewWithdrawal datetime string ident AdminWithdrawalReviewRequest

fun handle :: "db \<Rightarrow> request \<Rightarrow> db" where
  "handle s (Register pwd_hash now new_id payload) = snd (register pwd_hash now new_id s payload)"
| "handle s (GoogleAuth now new_id new_auth_id new_hash new_access id_token) =
     snd (google_auth now new_id new_auth_id new_hash new_access s id_token)"
| "handle s (AdsStart now session_token new_id user_id ad_unit_id) =
     snd (ads_start now session_token new_id s user_id ad_unit_id)"
| "handle s (AdsComplete now r new_id user_id session_token) =
     snd (ads_complete now r new_id s user_id session_token)"
| "handle s (RequestWithdraw now new_wid new_tid user_id payload) =
     snd (request_withdraw now new_wid new_tid s user_id payload)"
| "handle s (ReviewWithdrawal now admin_token withdrawal_id payload) =
     snd (review_withdrawal now s admin_token withdrawal_id payload)"

definition run :: "db \<Rightarrow> request list \<Rightarrow> db" where
  "run s rs = foldl handle s rs"


text \<open>
  Rows of users are only appended; rows of balances are appended or updated in place
  under the same key.
\<close>

definition grows :: "db \<Rightarrow> db \<Rightarrow> bool" where
  "grows s s' \<longleftrightarrow>
     (\<exists>ys. users s' = users s @ ys) \<and>
     (\<exists>g ys. balances s' = map g (balances s) @ ys \<and> (\<forall>b. b_user_id (g b) = b_user_id b))"

subsection \<open>The ledger\<close>




subsection \<open>The daily count per ad unit\<close>

text \<open>
  The count of claim C4 as the specification's glossary words it, per user and per ad
  unit; the handler uses \<open>daily_count\<close>, which has no ad unit.
\<close>

definition spec_daily_count :: "db \<Rightarrow> ident \<Rightarrow> ident \<Rightarrow> datetime \<Rightarrow> nat" where
  "spec_daily_count s uid aid now =
     length (filter (\<lambda>v. av_user_id v = uid \<and> av_ad_unit_id v = aid \<and>
                          av_status v = ''completed'' \<and> start_of_day now \<le> av_started_at v)
               (ad_views s))"

section \<open>Example stores\<close>

definition alice :: User where
  "alice = \<lparr>u_id = ''u1'', u_email = ''alice@example.com'', u_username = ''alice'',
            u_password_hash = ''$2b$alice'', u_is_active = True, u_created_at = 0\<rparr>"

definition bob :: User where
  "bob = \<lparr>u_id = ''u2'', u_email = ''bob@example.com'', u_username = ''bob'',
          u_password_hash = ''$2b$bob'', u_is_active = True, u_created_at = 0\<rparr>"

text \<open>The store after startup, and Carol's registration payload.\<close>

definition startup_db :: db where
  "startup_db = on_startup ''a1'' empty_db"

definition carol_request :: AuthRegisterRequest where
  "carol_request = \<lparr>rr_email = ''carol@example.com'', rr_password = ''correct horse'',
                    rr_username = ''carol''\<rparr>"

text \<open>Alice holds 15 currency units, earned by one transaction.\<close>

definition funded_db :: db where
  "funded_db =
     \<lparr>users = [alice], auth_accounts = [], ad_units = [rewarded_video ''a1''], ad_views = [],
      balances = [\<lparr>b_user_id = ''u1'', b_available = 15, b_pending = 0, b_updated_at = 0\<rparr>],
      transactions = [earn_tx ''t0'' ''u1'' 15 0],
      withdrawals = []\<rparr>"

definition withdraw_10 :: WithdrawRequest where
  "withdraw_10 = \<lparr>wr_amount = 10, wr_payout_method = ''paypal'',
                  wr_destination = ''alice@example.com''\<rparr>"

text \<open>
  Alice's request of 10 out of 15, then the admin's approval of it, each the store the
  handler returns.
\<close>

definition approve :: AdminWithdrawalReviewRequest where
  "approve = \<lparr>rv_status = ''approved'', rv_review_notes = None\<rparr>"

definition reject :: AdminWithdrawalReviewRequest where
  "reject = \<lparr>rv_status = ''rejected'', rv_review_notes = Some ''duplicate''\<rparr>"

definition pending_db :: db where
  "pending_db = snd (request_withdraw 7 ''w1'' ''t1'' funded_db ''u1'' withdraw_10)"

definition approved_db :: db where
  "approved_db = snd (review_withdrawal 8 pending_db ADMIN_TOKEN ''w1'' approve)"

text \<open>Alice and Bob have each started one session of the seeded ad unit.\<close>

definition alice_view :: AdView where
  "alice_view = \<lparr>av_id = ''v1'', av_user_id = ''u1'', av_ad_unit_id = ''a1'',
                 av_session_token = ''tok1'', av_started_at = 0, av_completed_at = None,
                 av_rewarded_amount = None, av_status = ''started''\<rparr>"

definition bob_view :: AdView where
  "bob_view = \<lparr>av_id = ''v2'', av_user_id = ''u2'', av_ad_unit_id = ''a1'',
               av_session_token = ''tok2'', av_started_at = 0, av_completed_at = None,
               av_rewarded_amount = None, av_status = ''started''\<rparr>"

definition session_db :: db where
  "session_db =
     \<lparr>users = [alice, bob], auth_accounts = [], ad_units = [rewarded_video ''a1''],
      ad_views = [alice_view, bob_view],
      balances = [\<lparr>b_user_id = ''u1'', b_available = 0, b_pending = 0, b_updated_at = 0\<rparr>,
                  \<lparr>b_user_id = ''u2'', b_available = 0, b_pending = 0, b_updated_at = 0\<rparr>],
      transactions = [], withdrawals = []\<rparr>"

text \<open>A second ad unit that may be completed once a day, and one that is switched off.\<close>

definition bonus_unit :: AdUnit where
  "bonus_unit =
     \<lparr>au_id = ''a2'', au_name = ''Bonus'', au_reward_min = 2 / 1000, au_reward_max = 1 / 100,
      au_cooldown_seconds = 60, au_daily_cap = 1, au_is_active = True\<rparr>"


text \<open>Alice has completed her session of the seeded unit; the bonus unit is untouched.\<close>

definition capped_db :: db where
  "capped_db =
     \<lparr>users = [alice], auth_accounts = [], ad_units = [rewarded_video ''a1'', bonus_unit],
      ad_views = [completed_view 5 (6 / 1000) alice_view],
      balances = [\<lparr>b_user_id = ''u1'', b_available = 6 / 1000, b_pending = 0, b_updated_at = 5\<rparr>],
      transactions = [earn_tx ''t1'' ''u1'' (6 / 1000) 5], withdrawals = []\<rparr>"

text \<open>Three transactions of Alice, stored out of time order, and one of Bob.\<close>

definition history_db :: db where
  "history_db =
     session_db\<lparr>transactions :=
       [earn_tx ''t1'' ''u1'' (2 / 1000) 10, earn_tx ''t2'' ''u1'' (5 / 1000) 30,
        earn_tx ''t3'' ''u2'' (4 / 1000) 40, earn_tx ''t4'' ''u1'' (3 / 1000) 20]\<rparr>"




section \<open>Properties of the store operations\<close>

lemma find_map_upd:
  "(\<And>x. k (f x) = k x) \<Longrightarrow>
   find (\<lambda>b. k b = j) (map (\<lambda>b. if k b = i then f b else b) xs) =
     (if j = i then map_option f (find (\<lambda>b. k b = i) xs) else find (\<lambda>b. k b = j) xs)"
  by (induction xs) auto

lemma find_map_preserve:
  "(\<And>x. P (g x) = P x) \<Longrightarrow> find P (map g xs) = map_option g (find P xs)"
  by (induction xs) auto

lemma get_user_InrD:
  "get_user s uid = Inr user \<Longrightarrow> u_id user = uid \<and> user \<in> set (users s)"
  by (auto simp: get_user_def db_get_User_def find_Some_iff split: option.splits)

lemma get_user_cong: "users s' = users s \<Longrightarrow> get_user s' uid = get_user s uid"
  by (simp add: get_user_def db_get_User_def)

lemma user_balance_map_upd:
  assumes "\<And>b. b_user_id (f b) = b_user_id b"
    and "balances s' = map (\<lambda>b. if b_user_id b = uid then f b else b) (balances s)"
  shows "user_balance s' uid' =
     (if uid' = uid then map_option f (user_balance s uid) else user_balance s uid')"
  unfolding user_balance_def assms(2) using assms(1) by (rule find_map_upd)

section \<open>Withdrawal requests\<close>

lemma request_withdraw_fail_unchanged:
  "request_withdraw now wid tid s uid p = (Inl e, s') \<Longrightarrow> s' = s"
  by (auto simp: request_withdraw_def Let_def split: sum.splits option.splits if_splits)



lemma request_withdraw_InrD:
  assumes "request_withdraw now wid tid s uid p = (Inr resp, s')"
  shows "\<exists>user bal. get_user s uid = Inr user \<and> user_balance s uid = Some bal \<and>
          10 \<le> wr_amount p \<and> wr_amount p \<le> b_available bal \<and>
          (\<forall>x \<in> set (withdrawals s). w_id x \<noteq> wid) \<and>
          (\<forall>x \<in> set (transactions s). t_id x \<noteq> tid)"
proof -
  obtain user where u: "get_user s uid = Inr user"
    using assms by (cases "get_user s uid") (auto simp: request_withdraw_def)
  then have uid: "u_id user = uid" by (simp add: get_user_InrD)
  have a: "10 \<le> wr_amount p"
    using assms u by (auto simp: request_withdraw_def split: if_splits)
  obtain bal where b: "user_balance s uid = Some bal"
    using assms u uid a by (cases "user_balance s uid") (auto simp: request_withdraw_def)
  have c: "wr_amount p \<le> b_available bal"
    using assms u uid a b by (auto simp: request_withdraw_def split: if_splits)
  have d: "\<forall>x \<in> set (withdrawals s). w_id x \<noteq> wid"
    using assms u uid a b c
    by (auto simp: request_withdraw_def Let_def insert_Withdrawal_def update_Balance_def
        split: if_splits)
  have "\<forall>x \<in> set (transactions s). t_id x \<noteq> tid"
    using assms u uid a b c d
    by (auto simp: request_withdraw_def Let_def insert_Withdrawal_def insert_Transaction_def
        update_Balance_def split: if_splits)
  with u a b c d show ?thesis by blast
qed

lemma request_withdraw_eq:
  assumes "get_user s uid = Inr user" and "user_balance s uid = Some bal"
    and "10 \<le> wr_amount p" and "wr_amount p \<le> b_available bal"
    and "\<forall>x \<in> set (withdrawals s). w_id x \<noteq> wid"
    and "\<forall>x \<in> set (transactions s). t_id x \<noteq> tid"
  shows "request_withdraw now wid tid s uid p =
    (Inr \<lparr>wresp_withdrawal_id = wid, wresp_status = ''pending'', wresp_queued_at = now\<rparr>,
     s\<lparr>balances := map (\<lambda>b. if b_user_id b = uid then debited now (wr_amount p) b else b)
                      (balances s),
       withdrawals := withdrawals s @ [pending_withdrawal wid uid p now],
       transactions := transactions s @ [spend_tx tid uid (wr_amount p) now]\<rparr>)"
proof -
  have uid: "u_id user = uid" using assms(1) by (simp add: get_user_InrD)
  show ?thesis
    using assms uid
    by (simp add: request_withdraw_def Let_def insert_Withdrawal_def insert_Transaction_def
        update_Balance_def debited_def spend_tx_def pending_withdrawal_def cong: if_cong)
qed



lemma funded_db_alice: "get_user funded_db ''u1'' = Inr alice"
  by (simp add: get_user_def db_get_User_def funded_db_def alice_def)

lemma funded_db_balance:
  "user_balance funded_db ''u1'' =
     Some \<lparr>b_user_id = ''u1'', b_available = 15, b_pending = 0, b_updated_at = 0\<rparr>"
  by (simp add: user_balance_def funded_db_def)


section \<open>Completing a session\<close>


lemma ads_complete_no_session:
  "get_user s uid = Inr user \<Longrightarrow> find (\<lambda>v. av_session_token v = tok) (ad_views s) = None \<Longrightarrow>
   ads_complete now r tid s uid tok = (Inl (HTTPException 404 ''Session not found''), s)"
  by (simp add: ads_complete_def)

lemma ads_complete_other_user:
  "get_user s uid = Inr user \<Longrightarrow> find (\<lambda>v. av_session_token v = tok) (ad_views s) = Some v \<Longrightarrow>
   av_user_id v \<noteq> uid \<Longrightarrow>
   ads_complete now r tid s uid tok = (Inl (HTTPException 404 ''Session not found''), s)"
  using get_user_InrD[of s uid user] by (simp add: ads_complete_def)

lemma ads_complete_not_started:
  "get_user s uid = Inr user \<Longrightarrow> find (\<lambda>v. av_session_token v = tok) (ad_views s) = Some v \<Longrightarrow>
   av_user_id v = uid \<Longrightarrow> av_status v \<noteq> ''started'' \<Longrightarrow>
   ads_complete now r tid s uid tok = (Inl (HTTPException 400 ''Already completed''), s)"
  using get_user_InrD[of s uid user] by (simp add: ads_complete_def)


lemma ads_complete_fail_unchanged:
  "ads_complete now r tid s uid tok = (Inl e, s') \<Longrightarrow> s' = s"
  by (auto simp: ads_complete_def Let_def split: sum.splits option.splits if_splits)

lemma ads_complete_InrD:
  assumes "ads_complete now r tid s uid tok = (Inr resp, s')"
  shows "\<exists>user v bal.
          get_user s uid = Inr user \<and>
          find (\<lambda>v. av_session_token v = tok) (ad_views s) = Some v \<and>
          av_user_id v = uid \<and> av_status v = ''started'' \<and>
          user_balance s uid = Some bal \<and> (\<forall>x \<in> set (transactions s). t_id x \<noteq> tid)"
proof -
  obtain user where u: "get_user s uid = Inr user"
    using assms by (cases "get_user s uid") (auto simp: ads_complete_def)
  then have uid: "u_id user = uid" by (simp add: get_user_InrD)
  obtain v where v: "find (\<lambda>v. av_session_token v = tok) (ad_views s) = Some v"
    using assms u by (cases "find (\<lambda>v. av_session_token v = tok) (ad_views s)")
      (auto simp: ads_complete_def)
  have vu: "av_user_id v = uid" and st: "av_status v = ''started''"
    using assms u v uid by (auto simp: ads_complete_def split: if_splits)
  obtain bal where b: "user_balance s uid = Some bal"
    using assms u v uid vu st by (cases "user_balance s uid") (auto simp: ads_complete_def Let_def)
  have "\<forall>x \<in> set (transactions s). t_id x \<noteq> tid"
    using assms u v uid vu st b
    by (auto simp: ads_complete_def Let_def insert_Transaction_def update_Balance_def
        update_AdView_def split: if_splits)
  with u v vu st b show ?thesis by blast
qed

lemma ads_complete_eq:
  assumes "get_user s uid = Inr user"
    and "find (\<lambda>v. av_session_token v = tok) (ad_views s) = Some v"
    and "av_user_id v = uid" and "av_status v = ''started''"
    and "user_balance s uid = Some bal"
    and "\<forall>x \<in> set (transactions s). t_id x \<noteq> tid"
  shows "ads_complete now r tid s uid tok =
    (Inr \<lparr>acr_reward = drawn_reward s v r, acr_new_balance = b_available bal + drawn_reward s v r\<rparr>,
     s\<lparr>ad_views := map (\<lambda>x. if av_id x = av_id v then completed_view now (drawn_reward s v r) x else x)
                      (ad_views s),
       balances := map (\<lambda>b. if b_user_id b = uid then credited now (drawn_reward s v r) b else b)
                      (balances s),
       transactions := transactions s @ [earn_tx tid uid (drawn_reward s v r) now]\<rparr>)"
proof -
  have uid: "u_id user = uid" using assms(1) by (simp add: get_user_InrD)
  show ?thesis
    using assms uid
    by (simp add: ads_complete_def Let_def insert_Transaction_def update_Balance_def
        update_AdView_def drawn_reward_def completed_view_def credited_def earn_tx_def
        cong: if_cong)
qed

lemma ads_complete_result:
  assumes ok: "ads_complete now r tid s uid tok = (Inr resp, s')"
    and v: "find (\<lambda>v. av_session_token v = tok) (ad_views s) = Some v"
    and b: "user_balance s uid = Some bal"
  shows "resp = \<lparr>acr_reward = drawn_reward s v r,
                  acr_new_balance = b_available bal + drawn_reward s v r\<rparr>"
    and "s' = s\<lparr>ad_views := map (\<lambda>x. if av_id x = av_id v
                                       then completed_view now (drawn_reward s v r) x else x)
                              (ad_views s),
               balances := map (\<lambda>b. if b_user_id b = uid
                                      then credited now (drawn_reward s v r) b else b)
                             (balances s),
               transactions := transactions s @ [earn_tx tid uid (drawn_reward s v r) now]\<rparr>"
proof -
  from ads_complete_InrD[OF ok] obtain user v0 bal0 where
    c: "get_user s uid = Inr user"
       "find (\<lambda>v. av_session_token v = tok) (ad_views s) = Some v0"
       "av_user_id v0 = uid" "av_status v0 = ''started''"
       "user_balance s uid = Some bal0" "\<forall>x \<in> set (transactions s). t_id x \<noteq> tid"
    by blast
  have v0: "v0 = v" using c(2) v by simp
  have b0: "bal0 = bal" using c(5) b by simp
  note eq = ads_complete_eq[OF c[unfolded v0 b0], of now r]
  let ?rw = "drawn_reward s v r"
  have both: "Inr \<lparr>acr_reward = ?rw, acr_new_balance = b_available bal + ?rw\<rparr>
        = (Inr resp :: error + AdCompleteResponse) \<and>
     s\<lparr>ad_views := map (\<lambda>x. if av_id x = av_id v then completed_view now ?rw x else x)
                      (ad_views s),
       balances := map (\<lambda>b. if b_user_id b = uid then credited now ?rw b else b) (balances s),
       transactions := transactions s @ [earn_tx tid uid ?rw now]\<rparr> = s'"
    using ok[unfolded eq] by (simp only: prod.inject)
  from both have "Inr \<lparr>acr_reward = ?rw, acr_new_balance = b_available bal + ?rw\<rparr>
        = (Inr resp :: error + AdCompleteResponse)" by (rule conjunct1)
  then show "resp = \<lparr>acr_reward = ?rw, acr_new_balance = b_available bal + ?rw\<rparr>"
    by (simp only: sum.inject)
  from both show "s' = s\<lparr>ad_views := map (\<lambda>x. if av_id x = av_id v then completed_view now ?rw x else x)
                      (ad_views s),
       balances := map (\<lambda>b. if b_user_id b = uid then credited now ?rw b else b) (balances s),
       transactions := transactions s @ [earn_tx tid uid ?rw now]\<rparr>"
    by (rule conjunct2[THEN sym])
qed

lemma ads_complete_effect:
  assumes ok: "ads_complete now r tid s uid tok = (Inr resp, s')"
    and v: "find (\<lambda>v. av_session_token v = tok) (ad_views s) = Some v"
    and b: "user_balance s uid = Some bal"
  shows "find (\<lambda>v. av_session_token v = tok) (ad_views s') =
            Some (completed_view now (drawn_reward s v r) v)"
    and "user_balance s' uid = Some (credited now (drawn_reward s v r) bal)"
    and "\<And>uid'. uid' \<noteq> uid \<Longrightarrow> user_balance s' uid' = user_balance s uid'"
    and "transactions s' = transactions s @ [earn_tx tid uid (drawn_reward s v r) now]"
    and "ad_views s' = map (\<lambda>x. if av_id x = av_id v
                                  then completed_view now (drawn_reward s v r) x else x) (ad_views s)"
    and "users s' = users s" and "auth_accounts s' = auth_accounts s"
    and "ad_units s' = ad_units s" and "withdrawals s' = withdrawals s"
proof -
  let ?rw = "drawn_reward s v r"
  note s' = ads_complete_result(2)[OF ok v b]
  show vs: "ad_views s' = map (\<lambda>x. if av_id x = av_id v then completed_view now ?rw x else x)
                      (ad_views s)"
    by (subst s') simp
  have bs: "balances s' = map (\<lambda>b. if b_user_id b = uid then credited now ?rw b else b) (balances s)"
    by (subst s') simp
  show "transactions s' = transactions s @ [earn_tx tid uid ?rw now]" by (subst s') simp
  show "users s' = users s" by (subst s') simp
  show "auth_accounts s' = auth_accounts s" by (subst s') simp
  show "ad_units s' = ad_units s" by (subst s') simp
  show "withdrawals s' = withdrawals s" by (subst s') simp
  have ub: "\<And>uid'. user_balance s' uid' =
     (if uid' = uid then map_option (credited now ?rw) (user_balance s uid)
      else user_balance s uid')"
    by (rule user_balance_map_upd[OF _ bs]) (simp add: credited_def)
  show "user_balance s' uid = Some (credited now ?rw bal)" by (simp add: ub b)
  show "\<And>uid'. uid' \<noteq> uid \<Longrightarrow> user_balance s' uid' = user_balance s uid'" by (simp add: ub)
  have "find (\<lambda>v. av_session_token v = tok) (ad_views s') =
        map_option (\<lambda>x. if av_id x = av_id v then completed_view now ?rw x else x)
          (find (\<lambda>v. av_session_token v = tok) (ad_views s))"
    unfolding vs by (rule find_map_preserve) (simp add: completed_view_def)
  then show "find (\<lambda>v. av_session_token v = tok) (ad_views s') = Some (completed_view now ?rw v)"
    by (simp add: v)
qed

lemma ads_complete_twice:
  assumes ok: "ads_complete now r tid s uid tok = (Inr resp, s')"
  shows "ads_complete now' r' tid' s' uid tok = (Inl (HTTPException 400 ''Already completed''), s')"
proof -
  from ads_complete_InrD[OF ok] obtain user v bal where
    u: "get_user s uid = Inr user"
    and v: "find (\<lambda>v. av_session_token v = tok) (ad_views s) = Some v"
    and vu: "av_user_id v = uid"
    and b: "user_balance s uid = Some bal" by blast
  note e = ads_complete_effect[OF ok v b]
  have "get_user s' uid = get_user s uid" using e(6) by (rule get_user_cong)
  then have "get_user s' uid = Inr user" using u by simp
  then show ?thesis
    by (rule ads_complete_not_started[OF _ e(1)]) (simp_all add: completed_view_def vu)
qed

lemma session_db_alice: "get_user session_db ''u1'' = Inr alice"
  by (simp add: get_user_def db_get_User_def session_db_def alice_def)

lemma session_db_find_tok1:
  "find (\<lambda>v. av_session_token v = ''tok1'') (ad_views session_db) = Some alice_view"
  by (simp add: session_db_def alice_view_def)

lemma session_db_find_tok2:
  "find (\<lambda>v. av_session_token v = ''tok2'') (ad_views session_db) = Some bob_view"
  by (simp add: session_db_def alice_view_def bob_view_def)

lemma session_db_find_none:
  "find (\<lambda>v. av_session_token v = ''tok9'') (ad_views session_db) = None"
  by (simp add: session_db_def alice_view_def bob_view_def)

lemma session_db_balance:
  "user_balance session_db ''u1'' =
     Some \<lparr>b_user_id = ''u1'', b_available = 0, b_pending = 0, b_updated_at = 0\<rparr>"
  by (simp add: user_balance_def session_db_def)

lemma session_db_unit: "db_get_AdUnit session_db ''a1'' = Some (rewarded_video ''a1'')"
  by (simp add: db_get_AdUnit_def session_db_def rewarded_video_def)

lemma session_db_complete:
  "ads_complete 5 (1 / 2) ''t1'' session_db ''u1'' ''tok1'' =
    (Inr \<lparr>acr_reward = 6 / 1000, acr_new_balance = 6 / 1000\<rparr>,
     session_db\<lparr>ad_views := [completed_view 5 (6 / 1000) alice_view, bob_view],
       balances := [\<lparr>b_user_id = ''u1'', b_available = 6 / 1000, b_pending = 0, b_updated_at = 5\<rparr>,
                    \<lparr>b_user_id = ''u2'', b_available = 0, b_pending = 0, b_updated_at = 0\<rparr>],
       transactions := [earn_tx ''t1'' ''u1'' (6 / 1000) 5]\<rparr>)"
proof -
  have rw: "drawn_reward session_db alice_view (1 / 2) = 6 / 1000"
    by (simp add: drawn_reward_def alice_view_def session_db_unit rewarded_video_def uniform_def)
  have fresh: "\<forall>x \<in> set (transactions session_db). t_id x \<noteq> ''t1''"
    by (simp add: session_db_def)
  have vu: "av_user_id alice_view = ''u1''" and st: "av_status alice_view = ''started''"
    by (simp_all add: alice_view_def)
  show ?thesis
    unfolding ads_complete_eq[OF session_db_alice session_db_find_tok1 vu st session_db_balance fresh]
      rw
    by (simp add: session_db_def alice_view_def bob_view_def credited_def)
qed

text \<open>
  C5. For a known user, completing a session fails with HTTP 404 ("Session not found")
  when no ad view has the token or the ad view with the token belongs to another user,
  and with HTTP 400 ("Already completed") when the caller's ad view is not in status
  started. Every failure leaves the store as it was. After a successful completion, any
  second completion of the same token by the same user fails with HTTP 400
  ("Already completed") and leaves the store, so also the balance, as the first call
  left it.
\<close>

theorem ads_complete_failures:
  assumes "get_user s uid = Inr user"
  shows
    "(find (\<lambda>v. av_session_token v = tok) (ad_views s) = None \<longrightarrow>
        ads_complete now r tid s uid tok = (Inl (HTTPException 404 ''Session not found''), s)) \<and>
     (\<forall>v. find (\<lambda>v. av_session_token v = tok) (ad_views s) = Some v \<and> av_user_id v \<noteq> uid \<longrightarrow>
        ads_complete now r tid s uid tok = (Inl (HTTPException 404 ''Session not found''), s)) \<and>
     (\<forall>v. find (\<lambda>v. av_session_token v = tok) (ad_views s) = Some v \<and> av_user_id v = uid \<and>
          av_status v \<noteq> ''started'' \<longrightarrow>
        ads_complete now r tid s uid tok = (Inl (HTTPException 400 ''Already completed''), s)) \<and>
     (\<forall>e s'. ads_complete now r tid s uid tok = (Inl e, s') \<longrightarrow> s' = s) \<and>
     (\<forall>resp s'. ads_complete now r tid s uid tok = (Inr resp, s') \<longrightarrow>
        (\<forall>now' r' tid'. ads_complete now' r' tid' s' uid tok =
                          (Inl (HTTPException 400 ''Already completed''), s')))"
proof (intro conjI allI impI)
  assume "find (\<lambda>v. av_session_token v = tok) (ad_views s) = None"
  with assms show "ads_complete now r tid s uid tok =
      (Inl (HTTPException 404 ''Session not found''), s)"
    by (rule ads_complete_no_session)
next
  fix v assume "find (\<lambda>v. av_session_token v = tok) (ad_views s) = Some v \<and> av_user_id v \<noteq> uid"
  then show "ads_complete now r tid s uid tok =
      (Inl (HTTPException 404 ''Session not found''), s)"
    using ads_complete_other_user[OF assms, of tok v now r tid] by simp
next
  fix v assume "find (\<lambda>v. av_session_token v = tok) (ad_views s) = Some v \<and> av_user_id v = uid \<and>
          av_status v \<noteq> ''started''"
  then show "ads_complete now r tid s uid tok =
      (Inl (HTTPException 400 ''Already completed''), s)"
    using ads_complete_not_started[OF assms, of tok v now r tid] by simp
next
  fix e s' assume "ads_complete now r tid s uid tok = (Inl e, s')"
  then show "s' = s" by (rule ads_complete_fail_unchanged)
next
  fix resp s' now' r' tid'
  assume "ads_complete now r tid s uid tok = (Inr resp, s')"
  then show "ads_complete now' r' tid' s' uid tok =
      (Inl (HTTPException 400 ''Already completed''), s')"
    by (rule ads_complete_twice)
qed

theorem ads_complete_failures_witness:
  "get_user session_db ''u1'' = Inr alice \<and>
   ads_complete 5 (1 / 2) ''t1'' session_db ''u1'' ''tok9'' =
     (Inl (HTTPException 404 ''Session not found''), session_db) \<and>
   ads_complete 5 (1 / 2) ''t1'' session_db ''u1'' ''tok2'' =
     (Inl (HTTPException 404 ''Session not found''), session_db) \<and>
   fst (ads_complete 5 (1 / 2) ''t1'' session_db ''u1'' ''tok1'') =
     Inr \<lparr>acr_reward = 6 / 1000, acr_new_balance = 6 / 1000\<rparr> \<and>
   ads_complete 9 (1 / 4) ''t2'' (snd (ads_complete 5 (1 / 2) ''t1'' session_db ''u1'' ''tok1''))
       ''u1'' ''tok1'' =
     (Inl (HTTPException 400 ''Already completed''),
      snd (ads_complete 5 (1 / 2) ''t1'' session_db ''u1'' ''tok1''))"
proof -
  note u = session_db_alice
  have a: "ads_complete 5 (1 / 2) ''t1'' session_db ''u1'' ''tok9'' =
     (Inl (HTTPException 404 ''Session not found''), session_db)"
    using ads_complete_failures[OF u, of "''tok9''" 5 "1 / 2" "''t1''"] session_db_find_none
    by simp
  have b: "ads_complete 5 (1 / 2) ''t1'' session_db ''u1'' ''tok2'' =
     (Inl (HTTPException 404 ''Session not found''), session_db)"
    using ads_complete_failures[OF u, of "''tok2''" 5 "1 / 2" "''t1''"] session_db_find_tok2
    by (simp add: bob_view_def)
  have c: "ads_complete 9 (1 / 4) ''t2'' (snd (ads_complete 5 (1 / 2) ''t1'' session_db ''u1'' ''tok1''))
       ''u1'' ''tok1'' =
     (Inl (HTTPException 400 ''Already completed''),
      snd (ads_complete 5 (1 / 2) ''t1'' session_db ''u1'' ''tok1''))"
    using ads_complete_failures[OF u, of "''tok1''" 5 "1 / 2" "''t1''"]
    by (simp add: session_db_complete)
  show ?thesis using u a b c by (simp add: session_db_complete)
qed



section \<open>Reviewing a withdrawal\<close>

lemma db_get_Withdrawal_SomeD: "db_get_Withdrawal s wid = Some w \<Longrightarrow> w_id w = wid"
  by (auto simp: db_get_Withdrawal_def find_Some_iff)

lemma review_withdrawal_fail_unchanged:
  "review_withdrawal now s tok wid p = (Inl e, s') \<Longrightarrow> s' = s"
  by (auto simp: review_withdrawal_def split: sum.splits option.splits if_splits)

lemma review_withdrawal_not_found:
  "require_admin tok = Inr () \<Longrightarrow> AdminWithdrawalReviewRequest_valid p \<Longrightarrow>
   db_get_Withdrawal s wid = None \<Longrightarrow>
   review_withdrawal now s tok wid p = (Inl (HTTPException 404 ''Withdrawal not found''), s)"
  by (simp add: review_withdrawal_def)

lemma review_withdrawal_eq:
  assumes "require_admin tok = Inr ()" and "AdminWithdrawalReviewRequest_valid p"
    and "db_get_Withdrawal s wid = Some w"
  shows "review_withdrawal now s tok wid p =
    (Inr \<lparr>wresp_withdrawal_id = wid, wresp_status = rv_status p,
           wresp_queued_at = w_created_at w\<rparr>,
     s\<lparr>withdrawals := map (\<lambda>x. if w_id x = wid then reviewed now p x else x) (withdrawals s)\<rparr>)"
  using assms db_get_Withdrawal_SomeD[OF assms(3)]
  by (simp add: review_withdrawal_def update_Withdrawal_def reviewed_def)

lemma db_get_Withdrawal_reviewed:
  assumes "withdrawals s' = map (\<lambda>x. if w_id x = wid then reviewed now p x else x) (withdrawals s)"
  shows "db_get_Withdrawal s' wid' =
     (if wid' = wid then map_option (reviewed now p) (db_get_Withdrawal s wid)
      else db_get_Withdrawal s wid')"
  unfolding db_get_Withdrawal_def assms
  by (rule find_map_upd) (simp add: reviewed_def)

lemma funded_db_withdraw:
  "request_withdraw 7 ''w1'' ''t1'' funded_db ''u1'' withdraw_10 =
    (Inr \<lparr>wresp_withdrawal_id = ''w1'', wresp_status = ''pending'', wresp_queued_at = 7\<rparr>,
     funded_db\<lparr>balances := [\<lparr>b_user_id = ''u1'', b_available = 5, b_pending = 10,
                                b_updated_at = 7\<rparr>],
       withdrawals := [pending_withdrawal ''w1'' ''u1'' withdraw_10 7],
       transactions := [earn_tx ''t0'' ''u1'' 15 0, spend_tx ''t1'' ''u1'' 10 7]\<rparr>)"
proof -
  have a: "10 \<le> wr_amount withdraw_10" "wr_amount withdraw_10 \<le> 15" "wr_amount withdraw_10 = 10"
    by (simp_all add: withdraw_10_def)
  have f: "\<forall>x \<in> set (withdrawals funded_db). w_id x \<noteq> ''w1''"
      "\<forall>x \<in> set (transactions funded_db). t_id x \<noteq> ''t1''"
    by (simp_all add: funded_db_def earn_tx_def)
  have "wr_amount withdraw_10
          \<le> b_available \<lparr>b_user_id = ''u1'', b_available = 15, b_pending = 0, b_updated_at = 0\<rparr>"
    using a by simp
  note eq = request_withdraw_eq[OF funded_db_alice funded_db_balance a(1) this f, of 7]
  show ?thesis unfolding eq a(3) by (simp add: funded_db_def debited_def)
qed

lemma pending_db_eq:
  "pending_db =
     funded_db\<lparr>balances := [\<lparr>b_user_id = ''u1'', b_available = 5, b_pending = 10,
                                b_updated_at = 7\<rparr>],
       withdrawals := [pending_withdrawal ''w1'' ''u1'' withdraw_10 7],
       transactions := [earn_tx ''t0'' ''u1'' 15 0, spend_tx ''t1'' ''u1'' 10 7]\<rparr>"
  by (simp add: pending_db_def funded_db_withdraw)

lemma admin_ok: "require_admin ADMIN_TOKEN = Inr ()"
  by (simp add: require_admin_def)

lemma approve_valid: "AdminWithdrawalReviewRequest_valid approve"
  by (simp add: AdminWithdrawalReviewRequest_valid_def approve_def)

lemma reject_valid: "AdminWithdrawalReviewRequest_valid reject"
  by (simp add: AdminWithdrawalReviewRequest_valid_def reject_def)

lemma pending_db_w1:
  "db_get_Withdrawal pending_db ''w1'' = Some (pending_withdrawal ''w1'' ''u1'' withdraw_10 7)"
  by (simp add: db_get_Withdrawal_def pending_db_eq pending_withdrawal_def)

lemma approved_db_eq:
  "approved_db =
     pending_db\<lparr>withdrawals := [reviewed 8 approve (pending_withdrawal ''w1'' ''u1'' withdraw_10 7)]\<rparr>"
  unfolding approved_db_def review_withdrawal_eq[OF admin_ok approve_valid pending_db_w1]
  by (simp add: pending_db_eq pending_withdrawal_def)

lemma approved_db_w1:
  "db_get_Withdrawal approved_db ''w1'' =
     Some (reviewed 8 approve (pending_withdrawal ''w1'' ''u1'' withdraw_10 7))"
  by (simp add: db_get_Withdrawal_def approved_db_eq reviewed_def pending_withdrawal_def)

text \<open>
  C2, as the specification states it, fails: a withdrawal already approved is reviewed
  again and becomes rejected; the handler answers with the new status instead of
  refusing. The store is the one reached by Alice's request followed by the approval.
\<close>

theorem review_withdrawal_terminal_counterexample:
  "map w_status (withdrawals approved_db) = [''approved''] \<and>
   fst (review_withdrawal 9 approved_db ADMIN_TOKEN ''w1'' reject) =
     Inr \<lparr>wresp_withdrawal_id = ''w1'', wresp_status = ''rejected'', wresp_queued_at = 7\<rparr> \<and>
   map w_status (withdrawals (snd (review_withdrawal 9 approved_db ADMIN_TOKEN ''w1'' reject))) =
     [''rejected'']"
  unfolding review_withdrawal_eq[OF admin_ok reject_valid approved_db_w1]
  by (simp add: approved_db_eq reviewed_def pending_withdrawal_def approve_def reject_def)

text \<open>
  C2, amended. A review by the admin with a decision in {approved, rejected} has no
  guard on the current status: on an existing withdrawal it always succeeds and sets the
  status to the decision, with the review time and the notes, whatever the status was
  (so approved can become rejected and back); the status it writes is never pending.
  It fails only with HTTP 404 when the withdrawal does not exist, and then the store is
  unchanged. No other withdrawal, no balance and no transaction is touched.
\<close>

theorem review_withdrawal_contract:
  assumes "require_admin tok = Inr ()" and "AdminWithdrawalReviewRequest_valid p"
  shows
    "(db_get_Withdrawal s wid = None \<longrightarrow>
        review_withdrawal now s tok wid p =
          (Inl (HTTPException 404 ''Withdrawal not found''), s)) \<and>
     (\<forall>w. db_get_Withdrawal s wid = Some w \<longrightarrow>
        (\<exists>s'. review_withdrawal now s tok wid p =
                 (Inr \<lparr>wresp_withdrawal_id = wid, wresp_status = rv_status p,
                        wresp_queued_at = w_created_at w\<rparr>, s') \<and>
              db_get_Withdrawal s' wid =
                 Some (w\<lparr>w_status := rv_status p, w_reviewed_at := Some now,
                         w_review_notes := rv_review_notes p\<rparr>) \<and>
              (rv_status p = ''approved'' \<or> rv_status p = ''rejected'') \<and>
              rv_status p \<noteq> ''pending'' \<and>
              (\<forall>wid'. wid' \<noteq> wid \<longrightarrow> db_get_Withdrawal s' wid' = db_get_Withdrawal s wid') \<and>
              balances s' = balances s \<and> transactions s' = transactions s \<and>
              users s' = users s \<and> ad_views s' = ad_views s))"
proof (intro conjI allI impI)
  assume "db_get_Withdrawal s wid = None"
  with assms show "review_withdrawal now s tok wid p =
          (Inl (HTTPException 404 ''Withdrawal not found''), s)"
    by (rule review_withdrawal_not_found)
next
  fix w assume w: "db_get_Withdrawal s wid = Some w"
  let ?s' = "s\<lparr>withdrawals := map (\<lambda>x. if w_id x = wid then reviewed now p x else x)
                                  (withdrawals s)\<rparr>"
  note eq = review_withdrawal_eq[OF assms w, of now]
  have ws: "withdrawals ?s' = map (\<lambda>x. if w_id x = wid then reviewed now p x else x) (withdrawals s)"
    by simp
  note g = db_get_Withdrawal_reviewed[OF ws]
  have g1: "db_get_Withdrawal ?s' wid =
                 Some (w\<lparr>w_status := rv_status p, w_reviewed_at := Some now,
                         w_review_notes := rv_review_notes p\<rparr>)"
    by (simp add: g w reviewed_def)
  have g2: "\<forall>wid'. wid' \<noteq> wid \<longrightarrow> db_get_Withdrawal ?s' wid' = db_get_Withdrawal s wid'"
    by (simp add: g)
  have st: "rv_status p = ''approved'' \<or> rv_status p = ''rejected''"
    using assms(2) by (simp add: AdminWithdrawalReviewRequest_valid_def)
  then have np: "rv_status p \<noteq> ''pending''" by auto
  have rest: "balances ?s' = balances s" "transactions ?s' = transactions s"
    "users ?s' = users s" "ad_views ?s' = ad_views s" by simp_all
  show "\<exists>s'. review_withdrawal now s tok wid p =
                 (Inr \<lparr>wresp_withdrawal_id = wid, wresp_status = rv_status p,
                        wresp_queued_at = w_created_at w\<rparr>, s') \<and>
              db_get_Withdrawal s' wid =
                 Some (w\<lparr>w_status := rv_status p, w_reviewed_at := Some now,
                         w_review_notes := rv_review_notes p\<rparr>) \<and>
              (rv_status p = ''approved'' \<or> rv_status p = ''rejected'') \<and>
              rv_status p \<noteq> ''pending'' \<and>
              (\<forall>wid'. wid' \<noteq> wid \<longrightarrow> db_get_Withdrawal s' wid' = db_get_Withdrawal s wid') \<and>
              balances s' = balances s \<and> transactions s' = transactions s \<and>
              users s' = users s \<and> ad_views s' = ad_views s"
    by (intro exI[of _ ?s'] conjI) (fact eq g1 g2 st np rest)+
qed

theorem review_withdrawal_contract_witness:
  "require_admin ADMIN_TOKEN = Inr () \<and> AdminWithdrawalReviewRequest_valid approve \<and>
   AdminWithdrawalReviewRequest_valid reject \<and>
   review_withdrawal 8 pending_db ADMIN_TOKEN ''w9'' approve =
     (Inl (HTTPException 404 ''Withdrawal not found''), pending_db) \<and>
   (\<exists>s'. review_withdrawal 8 pending_db ADMIN_TOKEN ''w1'' approve =
            (Inr \<lparr>wresp_withdrawal_id = ''w1'', wresp_status = ''approved'',
                   wresp_queued_at = 7\<rparr>, s') \<and>
          map_option w_status (db_get_Withdrawal s' ''w1'') = Some ''approved'' \<and>
          map_option w_reviewed_at (db_get_Withdrawal s' ''w1'') = Some (Some 8) \<and>
          balances s' = balances pending_db) \<and>
   (\<exists>s'. review_withdrawal 9 approved_db ADMIN_TOKEN ''w1'' reject =
            (Inr \<lparr>wresp_withdrawal_id = ''w1'', wresp_status = ''rejected'',
                   wresp_queued_at = 7\<rparr>, s') \<and>
          map_option w_status (db_get_Withdrawal s' ''w1'') = Some ''rejected'')"
proof -
  have none: "db_get_Withdrawal pending_db ''w9'' = None"
    by (simp add: db_get_Withdrawal_def pending_db_eq pending_withdrawal_def)
  note c1 = review_withdrawal_contract[OF admin_ok approve_valid, of pending_db _ 8]
  note c2 = review_withdrawal_contract[OF admin_ok reject_valid, of approved_db "''w1''" 9]
  have a: "review_withdrawal 8 pending_db ADMIN_TOKEN ''w9'' approve =
     (Inl (HTTPException 404 ''Withdrawal not found''), pending_db)"
    using c1[of "''w9''"] none by simp
  have b: "\<exists>s'. review_withdrawal 8 pending_db ADMIN_TOKEN ''w1'' approve =
            (Inr \<lparr>wresp_withdrawal_id = ''w1'', wresp_status = ''approved'',
                   wresp_queued_at = 7\<rparr>, s') \<and>
          map_option w_status (db_get_Withdrawal s' ''w1'') = Some ''approved'' \<and>
          map_option w_reviewed_at (db_get_Withdrawal s' ''w1'') = Some (Some 8) \<and>
          balances s' = balances pending_db"
    using c1[of "''w1''"] pending_db_w1
    by (auto simp: approve_def pending_withdrawal_def)
  have c: "\<exists>s'. review_withdrawal 9 approved_db ADMIN_TOKEN ''w1'' reject =
            (Inr \<lparr>wresp_withdrawal_id = ''w1'', wresp_status = ''rejected'',
                   wresp_queued_at = 7\<rparr>, s') \<and>
          map_option w_status (db_get_Withdrawal s' ''w1'') = Some ''rejected''"
    using c2 approved_db_w1
    by (auto simp: reject_def reviewed_def pending_withdrawal_def)
  show ?thesis using admin_ok approve_valid reject_valid a b c by (intro conjI)
qed

section \<open>Starting a session\<close>

lemma order_by_desc_sorted:
  "sorted_wrt (\<lambda>a b. key b \<le> key a) (order_by_desc key xs)"
proof -
  have "sorted (map (\<lambda>x. - key x) (sort_key (\<lambda>x. - key x) xs))" by (rule sorted_sort_key)
  then show ?thesis by (simp add: order_by_desc_def sorted_map)
qed


lemma order_by_desc_length: "length (order_by_desc key xs) = length xs"
  by (simp add: order_by_desc_def)




lemma ads_start_fail_unchanged:
  "ads_start now tok vid s uid aid = (Inl e, s') \<Longrightarrow> s' = s"
  by (auto simp: ads_start_def split: sum.splits option.splits if_splits)




lemma ads_start_daily_cap:
  "get_user s uid = Inr user \<Longrightarrow> db_get_AdUnit s aid = Some unit \<Longrightarrow> au_is_active unit \<Longrightarrow>
   \<not> cooldown_active s uid unit now \<Longrightarrow> au_daily_cap unit \<le> int (daily_count s uid now) \<Longrightarrow>
   ads_start now tok vid s uid aid = (Inl (HTTPException 429 ''Daily cap reached''), s)"
  using get_user_InrD[of s uid user] by (simp add: ads_start_def)

lemma db_get_AdUnit_SomeD: "db_get_AdUnit s aid = Some unit \<Longrightarrow> au_id unit = aid"
  by (auto simp: db_get_AdUnit_def find_Some_iff)

lemma ads_start_eq:
  assumes "get_user s uid = Inr user" and "db_get_AdUnit s aid = Some unit"
    and "au_is_active unit" and "\<not> cooldown_active s uid unit now"
    and "int (daily_count s uid now) < au_daily_cap unit"
    and "\<forall>x \<in> set (ad_views s). av_id x \<noteq> vid \<and> av_session_token x \<noteq> tok"
  shows "ads_start now tok vid s uid aid =
    (Inr \<lparr>asr_session_token = tok, asr_cooldown_seconds = au_cooldown_seconds unit\<rparr>,
     s\<lparr>ad_views := ad_views s @ [started_view vid uid aid tok now]\<rparr>)"
  using assms get_user_InrD[OF assms(1)] db_get_AdUnit_SomeD[OF assms(2)]
  by (simp add: ads_start_def insert_AdView_def started_view_def)

lemma ads_start_InrD:
  assumes "ads_start now tok vid s uid aid = (Inr resp, s')"
  shows "\<exists>user unit. get_user s uid = Inr user \<and> db_get_AdUnit s aid = Some unit \<and>
          au_is_active unit \<and> \<not> cooldown_active s uid unit now \<and>
          int (daily_count s uid now) < au_daily_cap unit \<and>
          (\<forall>x \<in> set (ad_views s). av_id x \<noteq> vid \<and> av_session_token x \<noteq> tok)"
proof -
  obtain user where u: "get_user s uid = Inr user"
    using assms by (cases "get_user s uid") (auto simp: ads_start_def)
  then have uid: "u_id user = uid" by (simp add: get_user_InrD)
  obtain unit where a: "db_get_AdUnit s aid = Some unit"
    using assms u by (cases "db_get_AdUnit s aid") (auto simp: ads_start_def)
  have act: "au_is_active unit"
    using assms u a by (auto simp: ads_start_def split: if_splits)
  have cd: "\<not> cooldown_active s uid unit now"
    using assms u a act uid by (auto simp: ads_start_def split: if_splits)
  have cap: "int (daily_count s uid now) < au_daily_cap unit"
    using assms u a act uid cd by (auto simp: ads_start_def split: if_splits)
  have "\<forall>x \<in> set (ad_views s). av_id x \<noteq> vid \<and> av_session_token x \<noteq> tok"
    using assms u a act uid cd cap
    by (auto simp: ads_start_def insert_AdView_def split: if_splits)
  with u a act cd cap show ?thesis by blast
qed

lemma ads_start_result:
  assumes ok: "ads_start now tok vid s uid aid = (Inr resp, s')"
    and a: "db_get_AdUnit s aid = Some unit"
  shows "resp = \<lparr>asr_session_token = tok, asr_cooldown_seconds = au_cooldown_seconds unit\<rparr>"
    and "s' = s\<lparr>ad_views := ad_views s @ [started_view vid uid aid tok now]\<rparr>"
proof -
  from ads_start_InrD[OF ok] obtain user unit0 where
    c: "get_user s uid = Inr user" "db_get_AdUnit s aid = Some unit0"
       "au_is_active unit0" "\<not> cooldown_active s uid unit0 now"
       "int (daily_count s uid now) < au_daily_cap unit0"
       "\<forall>x \<in> set (ad_views s). av_id x \<noteq> vid \<and> av_session_token x \<noteq> tok"
    by blast
  have u0: "unit0 = unit" using c(2) a by simp
  note eq = ads_start_eq[OF c[unfolded u0]]
  have both: "Inr \<lparr>asr_session_token = tok, asr_cooldown_seconds = au_cooldown_seconds unit\<rparr>
        = (Inr resp :: error + AdStartResponse) \<and>
      s\<lparr>ad_views := ad_views s @ [started_view vid uid aid tok now]\<rparr> = s'"
    using ok[unfolded eq] by (simp only: prod.inject)
  from both have "Inr \<lparr>asr_session_token = tok, asr_cooldown_seconds = au_cooldown_seconds unit\<rparr>
        = (Inr resp :: error + AdStartResponse)" by (rule conjunct1)
  then show "resp = \<lparr>asr_session_token = tok, asr_cooldown_seconds = au_cooldown_seconds unit\<rparr>"
    by (simp only: sum.inject)
  from both show "s' = s\<lparr>ad_views := ad_views s @ [started_view vid uid aid tok now]\<rparr>"
    by (rule conjunct2[THEN sym])
qed







section \<open>The daily cap\<close>

lemma start_of_day_bounds:
  "start_of_day now \<le> now \<and> now < start_of_day now + usec_per_day \<and>
   start_of_day now mod usec_per_day = 0"
proof -
  have d: "0 < usec_per_day" by (simp add: usec_per_day_def usec_per_second_def)
  have "0 \<le> now mod usec_per_day" and "now mod usec_per_day < usec_per_day"
    using d by simp_all
  moreover have "(now - now mod usec_per_day) mod usec_per_day = 0"
    by (simp add: minus_mod_eq_mult_div)
  ultimately show ?thesis by (simp add: start_of_day_def)
qed

lemma ads_start_daily_cap_iff:
  "ads_start now tok vid s uid aid = (Inl (HTTPException 429 ''Daily cap reached''), s') \<longleftrightarrow>
     s' = s \<and>
     (\<exists>user unit. get_user s uid = Inr user \<and> db_get_AdUnit s aid = Some unit \<and>
        au_is_active unit \<and> \<not> cooldown_active s uid unit now \<and>
        au_daily_cap unit \<le> int (daily_count s uid now))"
  (is "?L \<longleftrightarrow> ?R")
proof
  assume L: ?L
  then have s': "s' = s" by (rule ads_start_fail_unchanged)
  obtain user where u: "get_user s uid = Inr user"
    using L by (cases "get_user s uid")
      (auto simp: ads_start_def get_user_def split: option.splits)
  then have uid: "u_id user = uid" by (simp add: get_user_InrD)
  obtain unit where a: "db_get_AdUnit s aid = Some unit"
    using L u by (cases "db_get_AdUnit s aid") (auto simp: ads_start_def)
  have act: "au_is_active unit"
    using L u a by (auto simp: ads_start_def split: if_splits)
  have cd: "\<not> cooldown_active s uid unit now"
    using L u a act uid by (auto simp: ads_start_def split: if_splits)
  have cap: "au_daily_cap unit \<le> int (daily_count s uid now)"
    using L u a act uid cd
    by (auto simp: ads_start_def insert_AdView_def split: if_splits)
  from s' u a act cd cap show ?R by blast
next
  assume R: ?R
  then obtain user unit where "s' = s" "get_user s uid = Inr user"
    "db_get_AdUnit s aid = Some unit" "au_is_active unit" "\<not> cooldown_active s uid unit now"
    "au_daily_cap unit \<le> int (daily_count s uid now)" by blast
  then show ?L using ads_start_daily_cap[of s uid user aid unit now tok vid] by simp
qed

lemma map_upd_absent:
  "\<forall>x \<in> set xs. k x \<noteq> i \<Longrightarrow> map (\<lambda>x. if k x = i then f x else x) xs = xs"
  by (induction xs) auto

lemma length_filter_map_upd:
  assumes "distinct (map k xs)" and "v \<in> set xs" and "\<not> P v" and "P (f v)"
  shows "length (filter P (map (\<lambda>x. if k x = k v then f x else x) xs)) =
         Suc (length (filter P xs))"
  using assms(1,2)
proof (induction xs)
  case Nil
  then show ?case by simp
next
  case (Cons x xs)
  show ?case
  proof (cases "x = v")
    case True
    have "k v \<notin> k ` set xs" using Cons.prems(1) True by simp
    then have "\<forall>y \<in> set xs. k y \<noteq> k v" by (metis imageI)
    then have "map (\<lambda>x. if k x = k v then f x else x) xs = xs" by (rule map_upd_absent)
    then show ?thesis using True assms(3,4) by simp
  next
    case False
    then have v: "v \<in> set xs" using Cons.prems(2) by simp
    then have "k x \<noteq> k v" using Cons.prems(1) by auto
    moreover have "length (filter P (map (\<lambda>x. if k x = k v then f x else x) xs)) =
         Suc (length (filter P xs))"
      using Cons.IH Cons.prems(1) v by simp
    ultimately show ?thesis by simp
  qed
qed

lemma length_filter_map_same:
  assumes "\<And>x. P (g x) = P x"
  shows "length (filter P (map g xs)) = length (filter P xs)"
  by (induction xs) (simp_all add: assms)

lemma daily_count_after_complete:
  assumes ok: "ads_complete nowc r tid s uid tok = (Inr resp, s')"
    and v: "find (\<lambda>v. av_session_token v = tok) (ad_views s) = Some v"
    and d: "distinct (map av_id (ad_views s))"
    and today: "start_of_day now \<le> av_started_at v"
  shows "daily_count s' uid now = Suc (daily_count s uid now)"
proof -
  from ads_complete_InrD[OF ok] v obtain bal where
    vu: "av_user_id v = uid" and st: "av_status v = ''started''"
    and b: "user_balance s uid = Some bal" by auto
  note vs = ads_complete_effect(5)[OF ok v b]
  have mem: "v \<in> set (ad_views s)" using v by (auto simp: find_Some_iff)
  let ?P = "\<lambda>v. av_user_id v = uid \<and> av_status v = ''completed'' \<and>
                  start_of_day now \<le> av_started_at v"
  have "\<not> ?P v" using st by simp
  moreover have "?P (completed_view nowc (drawn_reward s v r) v)"
    using vu today by (simp add: completed_view_def)
  ultimately show ?thesis
    unfolding daily_count_def vs by (rule length_filter_map_upd[OF d mem])
qed

lemma length_filter_map_on:
  assumes "\<forall>x \<in> set xs. P (g x) = P x"
  shows "length (filter P (map g xs)) = length (filter P xs)"
  using assms by (induction xs) simp_all

lemma daily_count_after_complete_other_day:
  assumes ok: "ads_complete nowc r tid s uid tok = (Inr resp, s')"
    and v: "find (\<lambda>v. av_session_token v = tok) (ad_views s) = Some v"
    and d: "distinct (map av_id (ad_views s))"
    and before: "av_started_at v < start_of_day now"
  shows "daily_count s' uid now = daily_count s uid now"
proof -
  from ads_complete_InrD[OF ok] v obtain bal where
    b: "user_balance s uid = Some bal" by auto
  note vs = ads_complete_effect(5)[OF ok v b]
  have mem: "v \<in> set (ad_views s)" using v by (auto simp: find_Some_iff)
  let ?P = "\<lambda>v. av_user_id v = uid \<and> av_status v = ''completed'' \<and>
                  start_of_day now \<le> av_started_at v"
  let ?g = "\<lambda>x. if av_id x = av_id v then completed_view nowc (drawn_reward s v r) x else x"
  have "\<forall>x \<in> set (ad_views s). ?P (?g x) = ?P x"
  proof
    fix x assume x: "x \<in> set (ad_views s)"
    show "?P (?g x) = ?P x"
    proof (cases "av_id x = av_id v")
      case True
      then have "x = v" using d x mem by (meson distinct_map inj_on_def)
      then show ?thesis using before by (simp add: completed_view_def)
    next
      case False
      then show ?thesis by simp
    qed
  qed
  then show ?thesis unfolding daily_count_def vs by (rule length_filter_map_on)
qed

lemma daily_count_after_start:
  assumes ok: "ads_start now tok vid s uid aid = (Inr resp, s')"
  shows "daily_count s' uid' now' = daily_count s uid' now'"
proof -
  from ads_start_InrD[OF ok] obtain unit where a: "db_get_AdUnit s aid = Some unit" by blast
  note s' = ads_start_result(2)[OF ok a]
  have "ad_views s' = ad_views s @ [started_view vid uid aid tok now]" by (subst s') simp
  then show ?thesis by (simp add: daily_count_def started_view_def)
qed

lemma daily_count_reset:
  assumes "\<forall>v \<in> set (ad_views s). av_user_id v = uid \<longrightarrow> av_started_at v < start_of_day now"
  shows "daily_count s uid now = 0"
  using assms by (auto simp: daily_count_def filter_empty_conv)

lemma capped_db_alice: "get_user capped_db ''u1'' = Inr alice"
  by (simp add: get_user_def db_get_User_def capped_db_def alice_def)

lemma capped_db_bonus: "db_get_AdUnit capped_db ''a2'' = Some bonus_unit"
  by (simp add: db_get_AdUnit_def capped_db_def rewarded_video_def bonus_unit_def)

lemma capped_db_video: "db_get_AdUnit capped_db ''a1'' = Some (rewarded_video ''a1'')"
  by (simp add: db_get_AdUnit_def capped_db_def rewarded_video_def)

lemma capped_db_recent:
  "recent_view capped_db ''u1'' = Some (completed_view 5 (6 / 1000) alice_view)"
  by (simp add: recent_view_def order_by_desc_def capped_db_def completed_view_def alice_view_def)

lemma start_of_day_120: "start_of_day 120000000 = 0"
  by (simp add: start_of_day_def usec_per_day_def usec_per_second_def)

lemma capped_db_count: "daily_count capped_db ''u1'' 120000000 = 1"
  by (simp add: daily_count_def start_of_day_120 capped_db_def completed_view_def alice_view_def)

lemma capped_db_no_cooldown: "\<not> cooldown_active capped_db ''u1'' unit 120000000 \<longleftrightarrow>
    au_cooldown_seconds unit \<le> 120"
  by (simp add: cooldown_active_def capped_db_recent completed_view_def alice_view_def
      timedelta_seconds_def usec_per_second_def not_less)

text \<open>
  C4, as the specification states it, fails. Alice has completed one session of the
  seeded unit today and none of the bonus unit, whose cap is 1: two minutes later her
  start of the bonus unit is refused with "Daily cap reached", although her count for
  that ad unit is 0.
\<close>

theorem ads_start_daily_cap_counterexample:
  "db_get_AdUnit capped_db ''a2'' = Some bonus_unit \<and> au_daily_cap bonus_unit = 1 \<and>
   spec_daily_count capped_db ''u1'' ''a2'' 120000000 = 0 \<and>
   ads_start 120000000 ''tok3'' ''v3'' capped_db ''u1'' ''a2'' =
     (Inl (HTTPException 429 ''Daily cap reached''), capped_db)"
proof -
  have act: "au_is_active bonus_unit" and cap: "au_daily_cap bonus_unit = 1"
    and cd: "au_cooldown_seconds bonus_unit \<le> 120"
    by (simp_all add: bonus_unit_def)
  have ncd: "\<not> cooldown_active capped_db ''u1'' bonus_unit 120000000"
    using cd by (simp add: capped_db_no_cooldown)
  have le: "au_daily_cap bonus_unit \<le> int (daily_count capped_db ''u1'' 120000000)"
    by (simp add: cap capped_db_count)
  have "spec_daily_count capped_db ''u1'' ''a2'' 120000000 = 0"
    by (simp add: spec_daily_count_def capped_db_def completed_view_def alice_view_def)
  with capped_db_bonus cap
    ads_start_daily_cap[OF capped_db_alice capped_db_bonus act ncd le, of "''tok3''" "''v3''"]
  show ?thesis by simp
qed

text \<open>
  C4, amended. The count is per user over all ad units: the user's ad views with status
  completed that were started at or after 00:00 (UTC) of the current day. For a request
  that passes the earlier gates (known user, active unit, cooldown over), a start fails
  with HTTP 429 ("Daily cap reached") exactly when that count is at least the requested
  unit's \<open>daily_cap\<close>, and the store is unchanged; below the cap, with a fresh id and
  token, it succeeds and leaves the count as it is. Each successful completion of a
  session started since the boundary raises the count by exactly one, the completion of
  an older session does not change it, and a user whose views were all started before
  the boundary has count 0 (the reset at 00:00).
\<close>

theorem ads_start_daily_cap_rule:
  "(ads_start now tok vid s uid aid = (Inl (HTTPException 429 ''Daily cap reached''), s') \<longleftrightarrow>
      s' = s \<and>
      (\<exists>user unit. get_user s uid = Inr user \<and> db_get_AdUnit s aid = Some unit \<and>
         au_is_active unit \<and> \<not> cooldown_active s uid unit now \<and>
         au_daily_cap unit \<le> int (daily_count s uid now))) \<and>
   daily_count s uid now =
     length (filter (\<lambda>v. av_user_id v = uid \<and> av_status v = ''completed'' \<and>
                          now - now mod 86400000000 \<le> av_started_at v) (ad_views s)) \<and>
   (\<forall>user unit. get_user s uid = Inr user \<and> db_get_AdUnit s aid = Some unit \<and>
       au_is_active unit \<and> \<not> cooldown_active s uid unit now \<and>
       int (daily_count s uid now) < au_daily_cap unit \<and>
       (\<forall>x \<in> set (ad_views s). av_id x \<noteq> vid \<and> av_session_token x \<noteq> tok) \<longrightarrow>
       (\<exists>resp s1. ads_start now tok vid s uid aid = (Inr resp, s1) \<and>
                   daily_count s1 uid now = daily_count s uid now)) \<and>
   (\<forall>nowc r tid tokc resp s1 v.
       ads_complete nowc r tid s uid tokc = (Inr resp, s1) \<and>
       find (\<lambda>v. av_session_token v = tokc) (ad_views s) = Some v \<and>
       distinct (map av_id (ad_views s)) \<longrightarrow>
       daily_count s1 uid now =
         (if now - now mod 86400000000 \<le> av_started_at v then Suc (daily_count s uid now)
          else daily_count s uid now)) \<and>
   ((\<forall>v \<in> set (ad_views s). av_user_id v = uid \<longrightarrow> av_started_at v < now - now mod 86400000000)
      \<longrightarrow> daily_count s uid now = 0)"
proof -
  have sod: "start_of_day now = now - now mod 86400000000"
    by (simp add: start_of_day_def usec_per_day_def usec_per_second_def)
  note c1 = ads_start_daily_cap_iff[of now tok vid s uid aid s']
  have c2: "daily_count s uid now =
     length (filter (\<lambda>v. av_user_id v = uid \<and> av_status v = ''completed'' \<and>
                          now - now mod 86400000000 \<le> av_started_at v) (ad_views s))"
    by (simp add: daily_count_def sod)
  have c3: "\<forall>user unit. get_user s uid = Inr user \<and> db_get_AdUnit s aid = Some unit \<and>
       au_is_active unit \<and> \<not> cooldown_active s uid unit now \<and>
       int (daily_count s uid now) < au_daily_cap unit \<and>
       (\<forall>x \<in> set (ad_views s). av_id x \<noteq> vid \<and> av_session_token x \<noteq> tok) \<longrightarrow>
       (\<exists>resp s1. ads_start now tok vid s uid aid = (Inr resp, s1) \<and>
                   daily_count s1 uid now = daily_count s uid now)"
  proof (intro allI impI)
    fix user unit
    assume h: "get_user s uid = Inr user \<and> db_get_AdUnit s aid = Some unit \<and>
       au_is_active unit \<and> \<not> cooldown_active s uid unit now \<and>
       int (daily_count s uid now) < au_daily_cap unit \<and>
       (\<forall>x \<in> set (ad_views s). av_id x \<noteq> vid \<and> av_session_token x \<noteq> tok)"
    then have eq: "ads_start now tok vid s uid aid =
        (Inr \<lparr>asr_session_token = tok, asr_cooldown_seconds = au_cooldown_seconds unit\<rparr>,
         s\<lparr>ad_views := ad_views s @ [started_view vid uid aid tok now]\<rparr>)"
      using ads_start_eq[of s uid user aid unit now vid tok] by simp
    from daily_count_after_start[OF eq]
    have "daily_count (s\<lparr>ad_views := ad_views s @ [started_view vid uid aid tok now]\<rparr>) uid now
            = daily_count s uid now" .
    with eq show "\<exists>resp s1. ads_start now tok vid s uid aid = (Inr resp, s1) \<and>
                   daily_count s1 uid now = daily_count s uid now"
      by (intro exI conjI)
  qed
  have c4: "\<forall>nowc r tid tokc resp s1 v.
       ads_complete nowc r tid s uid tokc = (Inr resp, s1) \<and>
       find (\<lambda>v. av_session_token v = tokc) (ad_views s) = Some v \<and>
       distinct (map av_id (ad_views s)) \<longrightarrow>
       daily_count s1 uid now =
         (if now - now mod 86400000000 \<le> av_started_at v then Suc (daily_count s uid now)
          else daily_count s uid now)"
  proof (intro allI impI)
    fix nowc r tid tokc resp s1 v
    assume h: "ads_complete nowc r tid s uid tokc = (Inr resp, s1) \<and>
       find (\<lambda>v. av_session_token v = tokc) (ad_views s) = Some v \<and>
       distinct (map av_id (ad_views s))"
    then have ok: "ads_complete nowc r tid s uid tokc = (Inr resp, s1)"
      and v: "find (\<lambda>v. av_session_token v = tokc) (ad_views s) = Some v"
      and d: "distinct (map av_id (ad_views s))" by simp_all
    show "daily_count s1 uid now =
         (if now - now mod 86400000000 \<le> av_started_at v then Suc (daily_count s uid now)
          else daily_count s uid now)"
    proof (cases "start_of_day now \<le> av_started_at v")
      case True
      with daily_count_after_complete[OF ok v d True] show ?thesis by (simp add: sod)
    next
      case False
      then have "av_started_at v < start_of_day now" by simp
      from daily_count_after_complete_other_day[OF ok v d this] False
      show ?thesis by (simp add: sod)
    qed
  qed
  have c5: "(\<forall>v \<in> set (ad_views s). av_user_id v = uid \<longrightarrow>
               av_started_at v < now - now mod 86400000000)
      \<longrightarrow> daily_count s uid now = 0"
    using daily_count_reset[of s uid now] by (simp add: sod)
  show ?thesis by (intro conjI) (fact c1 c2 c3 c4 c5)+
qed

lemma session_db_distinct: "distinct (map av_id (ad_views session_db))"
  by (simp add: session_db_def alice_view_def bob_view_def)

theorem ads_start_daily_cap_rule_witness:
  "ads_start 120000000 ''tok3'' ''v3'' capped_db ''u1'' ''a2'' =
     (Inl (HTTPException 429 ''Daily cap reached''), capped_db) \<and>
   daily_count capped_db ''u1'' 120000000 = 1 \<and>
   (\<exists>resp s1. ads_start 120000000 ''tok3'' ''v3'' capped_db ''u1'' ''a1'' = (Inr resp, s1) \<and>
               daily_count s1 ''u1'' 120000000 = 1) \<and>
   daily_count session_db ''u1'' 5 = 0 \<and>
   daily_count (snd (ads_complete 5 (1 / 2) ''t1'' session_db ''u1'' ''tok1'')) ''u1'' 5 = 1 \<and>
   daily_count capped_db ''u1'' 86400000000 = 0"
proof -
  note r1 = ads_start_daily_cap_rule[where s = capped_db and uid = "''u1''" and now = 120000000
      and tok = "''tok3''" and vid = "''v3''" and aid = "''a2''" and s' = capped_db]
  note r2 = ads_start_daily_cap_rule[where s = capped_db and uid = "''u1''" and now = 120000000
      and tok = "''tok3''" and vid = "''v3''" and aid = "''a1''" and s' = capped_db]
  note r3 = ads_start_daily_cap_rule[where s = session_db and uid = "''u1''" and now = 5
      and tok = "''tok3''" and vid = "''v3''" and aid = "''a1''" and s' = session_db]
  note r4 = ads_start_daily_cap_rule[where s = capped_db and uid = "''u1''" and now = 86400000000
      and tok = "''tok3''" and vid = "''v3''" and aid = "''a1''" and s' = capped_db]
  have cnt: "daily_count capped_db ''u1'' 120000000 = 1" by (rule capped_db_count)
  have a: "ads_start 120000000 ''tok3'' ''v3'' capped_db ''u1'' ''a2'' =
     (Inl (HTTPException 429 ''Daily cap reached''), capped_db)"
  proof -
    have "\<exists>user unit. get_user capped_db ''u1'' = Inr user \<and>
        db_get_AdUnit capped_db ''a2'' = Some unit \<and> au_is_active unit \<and>
        \<not> cooldown_active capped_db ''u1'' unit 120000000 \<and>
        au_daily_cap unit \<le> int (daily_count capped_db ''u1'' 120000000)"
      by (intro exI[of _ alice] exI[of _ bonus_unit])
        (simp add: capped_db_alice capped_db_bonus capped_db_no_cooldown cnt bonus_unit_def)
    then show ?thesis using r1[THEN conjunct1] by simp
  qed
  have b: "\<exists>resp s1. ads_start 120000000 ''tok3'' ''v3'' capped_db ''u1'' ''a1'' = (Inr resp, s1) \<and>
               daily_count s1 ''u1'' 120000000 = 1"
  proof -
    have pre: "get_user capped_db ''u1'' = Inr alice \<and>
       db_get_AdUnit capped_db ''a1'' = Some (rewarded_video ''a1'') \<and>
       au_is_active (rewarded_video ''a1'') \<and>
       \<not> cooldown_active capped_db ''u1'' (rewarded_video ''a1'') 120000000 \<and>
       int (daily_count capped_db ''u1'' 120000000) < au_daily_cap (rewarded_video ''a1'') \<and>
       (\<forall>x \<in> set (ad_views capped_db). av_id x \<noteq> ''v3'' \<and> av_session_token x \<noteq> ''tok3'')"
      by (simp add: capped_db_alice capped_db_video capped_db_no_cooldown cnt rewarded_video_def)
        (simp add: capped_db_def completed_view_def alice_view_def)
    from r2[THEN conjunct2, THEN conjunct2, THEN conjunct1, rule_format, OF pre]
    show ?thesis by (simp add: cnt)
  qed
  have sod5: "(5::int) - 5 mod 86400000000 = 0" by simp
  have c0: "daily_count session_db ''u1'' 5 = 0"
    using r3[THEN conjunct2, THEN conjunct1]
    by (simp add: session_db_def alice_view_def bob_view_def)
  have c: "daily_count (snd (ads_complete 5 (1 / 2) ''t1'' session_db ''u1'' ''tok1'')) ''u1'' 5 = 1"
  proof -
    let ?s1 = "snd (ads_complete 5 (1 / 2) ''t1'' session_db ''u1'' ''tok1'')"
    let ?resp = "fst (ads_complete 5 (1 / 2) ''t1'' session_db ''u1'' ''tok1'')"
    have ok: "ads_complete 5 (1 / 2) ''t1'' session_db ''u1'' ''tok1'' =
        (Inr \<lparr>acr_reward = 6 / 1000, acr_new_balance = 6 / 1000\<rparr>, ?s1)"
      by (simp add: session_db_complete)
    have pre: "ads_complete 5 (1 / 2) ''t1'' session_db ''u1'' ''tok1'' =
        (Inr \<lparr>acr_reward = 6 / 1000, acr_new_balance = 6 / 1000\<rparr>, ?s1) \<and>
       find (\<lambda>v. av_session_token v = ''tok1'') (ad_views session_db) = Some alice_view \<and>
       distinct (map av_id (ad_views session_db))"
      using ok session_db_find_tok1 session_db_distinct by (intro conjI)
    from r3[THEN conjunct2, THEN conjunct2, THEN conjunct2, THEN conjunct1, rule_format, OF pre]
    show ?thesis by (simp add: c0 alice_view_def)
  qed
  have d: "daily_count capped_db ''u1'' 86400000000 = 0"
    using r4[THEN conjunct2, THEN conjunct2, THEN conjunct2, THEN conjunct2]
    by (simp add: capped_db_def completed_view_def alice_view_def)
  show ?thesis by (intro conjI) (fact a cnt b c0 c d)+
qed

section \<open>The earnings history\<close>

lemma order_by_desc_mset: "mset (order_by_desc key xs) = mset xs"
  by (simp add: order_by_desc_def)

lemma take_drop_sorted_desc:
  assumes "sorted_wrt (\<lambda>a b. key b \<le> key a) ys"
  shows "\<forall>a \<in> set (take n ys). \<forall>b \<in> set (drop n ys). key b \<le> key a"
proof -
  have "sorted_wrt (\<lambda>a b. key b \<le> key a) (take n ys @ drop n ys)" using assms by simp
  then show ?thesis unfolding sorted_wrt_append by blast
qed

lemma get_history_eq:
  assumes "get_user s uid = Inr user"
  shows "get_history s uid =
     (Inr (map earnings_item
             (take 20 (order_by_desc t_occurred_at
                         (filter (\<lambda>t. t_user_id t = uid) (transactions s))))), s)"
  using assms get_user_InrD[OF assms]
  by (simp add: get_history_def Let_def earnings_item_def)

lemma get_history_unchanged: "snd (get_history s uid) = s"
  by (simp add: get_history_def Let_def split: sum.splits)

text \<open>
  C8. For a known user the history is the list of items of at most 20 of the user's
  transactions, in descending order of occurrence time; they are the most recent ones:
  together with the transactions left out they are exactly the user's transactions
  (counted with multiplicity), all of them are returned when there are at most 20, and
  no transaction left out occurred after a returned one. The store is returned as it
  was.
\<close>

theorem get_history_recent:
  assumes "get_user s uid = Inr user"
  shows
    "\<exists>txs rest.
       get_history s uid =
         (Inr (map (\<lambda>t. \<lparr>ei_transaction_id = t_id t, ei_amount = t_amount t,
                           ei_occurred_at = t_occurred_at t, ei_source = t_source t\<rparr>) txs), s) \<and>
       length txs \<le> 20 \<and>
       length txs = min 20 (length (filter (\<lambda>t. t_user_id t = uid) (transactions s))) \<and>
       mset (txs @ rest) = mset (filter (\<lambda>t. t_user_id t = uid) (transactions s)) \<and>
       sorted_wrt (\<lambda>a b. t_occurred_at b \<le> t_occurred_at a) txs \<and>
       (\<forall>a \<in> set txs. \<forall>b \<in> set rest. t_occurred_at b \<le> t_occurred_at a)"
proof -
  let ?mine = "filter (\<lambda>t. t_user_id t = uid) (transactions s)"
  let ?ys = "order_by_desc t_occurred_at ?mine"
  let ?txs = "take 20 ?ys" and ?rest = "drop 20 ?ys"
  have srt: "sorted_wrt (\<lambda>a b. t_occurred_at b \<le> t_occurred_at a) ?ys"
    by (rule order_by_desc_sorted)
  have c1: "get_history s uid =
         (Inr (map (\<lambda>t. \<lparr>ei_transaction_id = t_id t, ei_amount = t_amount t,
                           ei_occurred_at = t_occurred_at t, ei_source = t_source t\<rparr>) ?txs), s)"
    using get_history_eq[OF assms] by (simp add: earnings_item_def[abs_def])
  have c2: "length ?txs \<le> 20" by simp
  have c3: "length ?txs = min 20 (length ?mine)"
    by (simp add: order_by_desc_length min.commute)
  have c4: "mset (?txs @ ?rest) = mset ?mine" by (simp add: order_by_desc_mset)
  have c5: "sorted_wrt (\<lambda>a b. t_occurred_at b \<le> t_occurred_at a) ?txs"
    using srt by (rule sorted_wrt_take)
  have c6: "\<forall>a \<in> set ?txs. \<forall>b \<in> set ?rest. t_occurred_at b \<le> t_occurred_at a"
    using srt by (rule take_drop_sorted_desc)
  show ?thesis
    by (intro exI[of _ ?txs] exI[of _ ?rest] conjI) (fact c1 c2 c3 c4 c5 c6)+
qed

lemma history_db_alice: "get_user history_db ''u1'' = Inr alice"
  by (simp add: get_user_def db_get_User_def history_db_def session_db_def alice_def)

lemma history_db_items:
  "get_history history_db ''u1'' =
     (Inr [earnings_item (earn_tx ''t2'' ''u1'' (5 / 1000) 30),
           earnings_item (earn_tx ''t4'' ''u1'' (3 / 1000) 20),
           earnings_item (earn_tx ''t1'' ''u1'' (2 / 1000) 10)], history_db)"
  unfolding get_history_eq[OF history_db_alice]
  by (simp add: history_db_def earn_tx_def order_by_desc_def)

theorem get_history_recent_witness:
  "get_user history_db ''u1'' = Inr alice \<and>
   (\<exists>items. get_history history_db ''u1'' = (Inr items, history_db) \<and> length items \<le> 20 \<and>
      map ei_transaction_id items = [''t2'', ''t4'', ''t1''] \<and>
      map ei_occurred_at items = [30, 20, 10])"
proof -
  note ex = get_history_recent[OF history_db_alice]
  from ex have "\<exists>items. get_history history_db ''u1'' = (Inr items, history_db) \<and>
      length items \<le> 20 \<and>
      map ei_transaction_id items = [''t2'', ''t4'', ''t1''] \<and>
      map ei_occurred_at items = [30, 20, 10]"
  proof (elim exE conjE)
    fix txs rest
    let ?items = "map (\<lambda>t. \<lparr>ei_transaction_id = t_id t, ei_amount = t_amount t,
                           ei_occurred_at = t_occurred_at t, ei_source = t_source t\<rparr>) txs"
    assume h: "get_history history_db ''u1'' = (Inr ?items, history_db)"
      and l: "length txs \<le> 20"
    have it: "?items = [earnings_item (earn_tx ''t2'' ''u1'' (5 / 1000) 30),
           earnings_item (earn_tx ''t4'' ''u1'' (3 / 1000) 20),
           earnings_item (earn_tx ''t1'' ''u1'' (2 / 1000) 10)]"
      using h history_db_items by simp
    have ln: "length ?items \<le> 20" using l by simp
    have "get_history history_db ''u1'' = (Inr ?items, history_db) \<and> length ?items \<le> 20 \<and>
        map ei_transaction_id ?items = [''t2'', ''t4'', ''t1''] \<and>
        map ei_occurred_at ?items = [30, 20, 10]"
      using h ln unfolding it by (simp add: earnings_item_def earn_tx_def)
    then show ?thesis by (rule exI[of _ ?items])
  qed
  with history_db_alice show ?thesis by simp
qed

section \<open>Registration and external login\<close>

lemma register_fail_unchanged:
  "register h now i s p = (Inl e, s') \<Longrightarrow> s' = s"
  by (auto simp: register_def Let_def split: sum.splits if_splits)

lemma register_conflict:
  "AuthRegisterRequest_valid p \<Longrightarrow> find (\<lambda>u. u_email u = rr_email p) (users s) \<noteq> None \<Longrightarrow>
   register h now i s p = (Inl (HTTPException 400 ''Email already used''), s)"
  by (simp add: register_def)

lemma register_eq:
  assumes "AuthRegisterRequest_valid p"
    and "find (\<lambda>u. u_email u = rr_email p) (users s) = None"
    and "\<forall>x \<in> set (users s). u_id x \<noteq> i"
    and "\<forall>x \<in> set (balances s). b_user_id x \<noteq> i"
  shows "register h now i s p =
    (Inr \<lparr>arr_message = ''Registered successfully'', arr_user_id = i,
           arr_verification_required = True\<rparr>,
     s\<lparr>users := users s @ [registered_user h now i p],
       balances := balances s @ [zero_balance i now]\<rparr>)"
proof -
  have "\<forall>x \<in> set (users s). u_email x \<noteq> rr_email p"
    using assms(2) by (simp add: find_None_iff)
  then show ?thesis
    using assms
    by (simp add: register_def Let_def insert_User_def insert_Balance_def registered_user_def
        zero_balance_def)
qed

lemma register_InrD:
  assumes "register h now i s p = (Inr resp, s')"
  shows "AuthRegisterRequest_valid p \<and>
         find (\<lambda>u. u_email u = rr_email p) (users s) = None \<and>
         (\<forall>x \<in> set (users s). u_id x \<noteq> i) \<and>
         (\<forall>x \<in> set (balances s). b_user_id x \<noteq> i)"
proof -
  have v: "AuthRegisterRequest_valid p"
    using assms by (auto simp: register_def split: if_splits)
  have e: "find (\<lambda>u. u_email u = rr_email p) (users s) = None"
    using assms v by (auto simp: register_def split: if_splits)
  have u: "\<forall>x \<in> set (users s). u_id x \<noteq> i"
    using assms v e by (auto simp: register_def Let_def insert_User_def split: if_splits)
  have ne: "\<forall>x \<in> set (users s). u_email x \<noteq> rr_email p"
    using e by (simp add: find_None_iff)
  have "\<forall>x \<in> set (balances s). b_user_id x \<noteq> i"
    using assms v e u ne
    by (auto simp: register_def Let_def insert_User_def insert_Balance_def split: if_splits)
  with v e u show ?thesis by simp
qed

lemma register_result:
  assumes ok: "register h now i s p = (Inr resp, s')"
  shows "resp = \<lparr>arr_message = ''Registered successfully'', arr_user_id = i,
                  arr_verification_required = True\<rparr>"
    and "s' = s\<lparr>users := users s @ [registered_user h now i p],
               balances := balances s @ [zero_balance i now]\<rparr>"
proof -
  note c = register_InrD[OF ok]
  note eq = register_eq[OF c[THEN conjunct1] c[THEN conjunct2, THEN conjunct1]
      c[THEN conjunct2, THEN conjunct2, THEN conjunct1]
      c[THEN conjunct2, THEN conjunct2, THEN conjunct2], of h now]
  have both: "Inr \<lparr>arr_message = ''Registered successfully'', arr_user_id = i,
                    arr_verification_required = True\<rparr>
        = (Inr resp :: error + AuthRegisterResponse) \<and>
      s\<lparr>users := users s @ [registered_user h now i p],
        balances := balances s @ [zero_balance i now]\<rparr> = s'"
    using ok[unfolded eq] by (simp only: prod.inject)
  from both have "Inr \<lparr>arr_message = ''Registered successfully'', arr_user_id = i,
                    arr_verification_required = True\<rparr>
        = (Inr resp :: error + AuthRegisterResponse)" by (rule conjunct1)
  then show "resp = \<lparr>arr_message = ''Registered successfully'', arr_user_id = i,
                  arr_verification_required = True\<rparr>"
    by (simp only: sum.inject)
  from both show "s' = s\<lparr>users := users s @ [registered_user h now i p],
               balances := balances s @ [zero_balance i now]\<rparr>"
    by (rule conjunct2[THEN sym])
qed

lemma google_auth_fail_unchanged:
  "google_auth now i ai nh na s tok = (Inl e, s') \<Longrightarrow> s' = s"
  by (auto simp: google_auth_def Let_def split: sum.splits option.splits if_splits)

lemma google_auth_existing:
  "tok \<noteq> [] \<Longrightarrow> find_google_account s tok = Some a \<Longrightarrow>
   db_get_User s (aa_user_id a) = Some user \<Longrightarrow>
   google_auth now i ai nh na s tok =
     (Inr \<lparr>tr_access_token = na, tr_token_type = ''bearer'', tr_user_id = u_id user\<rparr>, s)"
  by (simp add: google_auth_def find_google_account_def)

lemma google_auth_existing_unchanged:
  "find_google_account s tok = Some a \<Longrightarrow> snd (google_auth now i ai nh na s tok) = s"
  by (simp add: google_auth_def find_google_account_def split: option.splits)

lemma google_auth_duplicate_email:
  assumes "tok \<noteq> []" and "find_google_account s tok = None"
    and "\<exists>x \<in> set (users s). u_email x = google_email tok"
  shows "google_auth now i ai nh na s tok = (Inl IntegrityError, s)"
  using assms
  by (simp add: google_auth_def find_google_account_def Let_def insert_User_def) blast

lemma google_auth_eq:
  assumes "tok \<noteq> []" and "find_google_account s tok = None"
    and "\<forall>x \<in> set (users s). u_id x \<noteq> i \<and> u_email x \<noteq> google_email tok"
    and "\<forall>x \<in> set (balances s). b_user_id x \<noteq> i"
    and "\<forall>x \<in> set (auth_accounts s). aa_id x \<noteq> ai \<and> aa_provider_id x \<noteq> tok"
  shows "google_auth now i ai nh na s tok =
    (Inr \<lparr>tr_access_token = na, tr_token_type = ''bearer'', tr_user_id = i\<rparr>,
     s\<lparr>users := users s @ [google_user now i nh tok],
       balances := balances s @ [zero_balance i now],
       auth_accounts := auth_accounts s @ [google_account now ai i tok]\<rparr>)"
  using assms
  by (simp add: google_auth_def find_google_account_def Let_def insert_User_def
      insert_Balance_def insert_AuthAccount_def google_user_def zero_balance_def
      google_account_def)

lemma google_auth_new_InrD:
  assumes ok: "google_auth now i ai nh na s tok = (Inr resp, s')"
    and n: "find_google_account s tok = None"
  shows "tok \<noteq> [] \<and>
         (\<forall>x \<in> set (users s). u_id x \<noteq> i \<and> u_email x \<noteq> google_email tok) \<and>
         (\<forall>x \<in> set (balances s). b_user_id x \<noteq> i) \<and>
         (\<forall>x \<in> set (auth_accounts s). aa_id x \<noteq> ai \<and> aa_provider_id x \<noteq> tok)"
proof -
  have n': "find (\<lambda>a. aa_provider a = ''google'' \<and> aa_provider_id a = tok) (auth_accounts s) = None"
    using n by (simp add: find_google_account_def)
  have t: "tok \<noteq> []"
    using ok by (auto simp: google_auth_def split: if_splits)
  have u: "\<forall>x \<in> set (users s). u_id x \<noteq> i \<and> u_email x \<noteq> google_email tok"
    using ok t n'
    by (auto simp: google_auth_def Let_def insert_User_def split: if_splits)
  have b: "\<forall>x \<in> set (balances s). b_user_id x \<noteq> i"
    using ok t n' u
    by (auto simp: google_auth_def Let_def insert_User_def insert_Balance_def split: if_splits)
  have "\<forall>x \<in> set (auth_accounts s). aa_id x \<noteq> ai \<and> aa_provider_id x \<noteq> tok"
    using ok t n' u b
    by (auto simp: google_auth_def Let_def insert_User_def insert_Balance_def
        insert_AuthAccount_def split: if_splits)
  with t u b show ?thesis by simp
qed

lemma google_auth_new_result:
  assumes ok: "google_auth now i ai nh na s tok = (Inr resp, s')"
    and n: "find_google_account s tok = None"
  shows "resp = \<lparr>tr_access_token = na, tr_token_type = ''bearer'', tr_user_id = i\<rparr>"
    and "s' = s\<lparr>users := users s @ [google_user now i nh tok],
               balances := balances s @ [zero_balance i now],
               auth_accounts := auth_accounts s @ [google_account now ai i tok]\<rparr>"
proof -
  note c = google_auth_new_InrD[OF ok n]
  note eq = google_auth_eq[OF c[THEN conjunct1] n c[THEN conjunct2, THEN conjunct1]
      c[THEN conjunct2, THEN conjunct2, THEN conjunct1]
      c[THEN conjunct2, THEN conjunct2, THEN conjunct2], of now nh na]
  have both: "Inr \<lparr>tr_access_token = na, tr_token_type = ''bearer'', tr_user_id = i\<rparr>
        = (Inr resp :: error + TokenResponse) \<and>
      s\<lparr>users := users s @ [google_user now i nh tok],
        balances := balances s @ [zero_balance i now],
        auth_accounts := auth_accounts s @ [google_account now ai i tok]\<rparr> = s'"
    using ok[unfolded eq] by (simp only: prod.inject)
  from both have "Inr \<lparr>tr_access_token = na, tr_token_type = ''bearer'', tr_user_id = i\<rparr>
        = (Inr resp :: error + TokenResponse)" by (rule conjunct1)
  then show "resp = \<lparr>tr_access_token = na, tr_token_type = ''bearer'', tr_user_id = i\<rparr>"
    by (simp only: sum.inject)
  from both show "s' = s\<lparr>users := users s @ [google_user now i nh tok],
               balances := balances s @ [zero_balance i now],
               auth_accounts := auth_accounts s @ [google_account now ai i tok]\<rparr>"
    by (rule conjunct2[THEN sym])
qed

lemma find_append_None:
  "find P xs = None \<Longrightarrow> find P (xs @ ys) = find P ys"
  by (induction xs) (auto split: if_splits)

lemma find_append_Some:
  "find P xs = Some x \<Longrightarrow> find P (xs @ ys) = Some x"
  by (induction xs) (auto split: if_splits)

lemma google_email_prefix: "take 8 t2 = take 8 t1 \<Longrightarrow> google_email t2 = google_email t1"
  by (simp add: google_email_def)

text \<open>
  C10. The email of a provisioned user is built from the first eight characters of the
  provider token only. Whenever a first login has provisioned a user for token \<open>t1\<close>, a
  login with any other non-empty token \<open>t2\<close> that has no account yet and shares the first
  eight characters synthesizes the same email, which the first user holds: the insert is
  refused by the unique column \<open>users.email\<close>, the login ends in \<open>IntegrityError\<close>
  instead of a credential, and no user, balance or account is provisioned for \<open>t2\<close>.
\<close>

theorem google_auth_prefix_collision:
  assumes "google_auth now1 i1 ai1 nh1 na1 s t1 = (Inr r1, s1)"
    and "find_google_account s t1 = None" and "find_google_account s t2 = None"
    and "t2 \<noteq> t1" and "t2 \<noteq> []" and "take 8 t2 = take 8 t1"
  shows "t1 \<noteq> [] \<and> google_email t2 = google_email t1 \<and>
         (\<exists>u \<in> set (users s1). u_id u = i1 \<and> u_email u = google_email t2) \<and>
         find_google_account s1 t2 = None \<and>
         google_auth now2 i2 ai2 nh2 na2 s1 t2 = (Inl IntegrityError, s1)"
proof -
  note c = google_auth_new_InrD[OF assms(1,2)]
  note s1 = google_auth_new_result(2)[OF assms(1,2)]
  have t1: "t1 \<noteq> []" using c by simp
  have em: "google_email t2 = google_email t1" using assms(6) by (rule google_email_prefix)
  have us: "users s1 = users s @ [google_user now1 i1 nh1 t1]" by (subst s1) simp
  have as: "auth_accounts s1 = auth_accounts s @ [google_account now1 ai1 i1 t1]"
    by (subst s1) simp
  have u: "\<exists>u \<in> set (users s1). u_id u = i1 \<and> u_email u = google_email t2"
    by (simp add: us em google_user_def)
  have n: "find_google_account s1 t2 = None"
    using assms(3,4) by (simp add: find_google_account_def as find_append_None google_account_def)
  have "\<exists>x \<in> set (users s1). u_email x = google_email t2" using u by blast
  from google_auth_duplicate_email[OF assms(5) n this]
  have f: "google_auth now2 i2 ai2 nh2 na2 s1 t2 = (Inl IntegrityError, s1)" .
  show ?thesis by (intro conjI) (fact t1 em u n f)+
qed

lemma startup_db_eq: "startup_db = empty_db\<lparr>ad_units := [rewarded_video ''a1'']\<rparr>"
  by (simp add: startup_db_def on_startup_def empty_db_def)

lemma startup_db_google:
  "google_auth 1 ''u1'' ''g1'' ''$2b$x'' ''bearer1'' startup_db ''abcdefgh-anna'' =
    (Inr \<lparr>tr_access_token = ''bearer1'', tr_token_type = ''bearer'', tr_user_id = ''u1''\<rparr>,
     startup_db\<lparr>users := [google_user 1 ''u1'' ''$2b$x'' ''abcdefgh-anna''],
       balances := [zero_balance ''u1'' 1],
       auth_accounts := [google_account 1 ''g1'' ''u1'' ''abcdefgh-anna'']\<rparr>)"
proof -
  have n: "find_google_account startup_db ''abcdefgh-anna'' = None"
    by (simp add: find_google_account_def startup_db_eq empty_db_def)
  have e: "''abcdefgh-anna'' \<noteq> []" by simp
  have u: "\<forall>x \<in> set (users startup_db). u_id x \<noteq> ''u1'' \<and> u_email x \<noteq> google_email ''abcdefgh-anna''"
    and b: "\<forall>x \<in> set (balances startup_db). b_user_id x \<noteq> ''u1''"
    and a: "\<forall>x \<in> set (auth_accounts startup_db). aa_id x \<noteq> ''g1'' \<and> aa_provider_id x \<noteq> ''abcdefgh-anna''"
    by (simp_all add: startup_db_eq empty_db_def)
  show ?thesis
    unfolding google_auth_eq[OF e n u b a]
    by (simp add: startup_db_eq empty_db_def)
qed

theorem google_auth_prefix_collision_witness:
  "fst (google_auth 1 ''u1'' ''g1'' ''$2b$x'' ''bearer1'' startup_db ''abcdefgh-anna'') =
     Inr \<lparr>tr_access_token = ''bearer1'', tr_token_type = ''bearer'', tr_user_id = ''u1''\<rparr> \<and>
   find_google_account startup_db ''abcdefgh-anna'' = None \<and>
   find_google_account startup_db ''abcdefgh-bert'' = None \<and>
   ''abcdefgh-bert'' \<noteq> ''abcdefgh-anna'' \<and> ''abcdefgh-bert'' \<noteq> [] \<and>
   take 8 ''abcdefgh-bert'' = take 8 ''abcdefgh-anna'' \<and>
   google_email ''abcdefgh-bert'' = ''google_abcdefgh@example.com'' \<and>
   google_email ''abcdefgh-anna'' = ''google_abcdefgh@example.com'' \<and>
   google_auth 2 ''u2'' ''g2'' ''$2b$y'' ''bearer2''
       (snd (google_auth 1 ''u1'' ''g1'' ''$2b$x'' ''bearer1'' startup_db ''abcdefgh-anna''))
       ''abcdefgh-bert'' =
     (Inl IntegrityError,
      snd (google_auth 1 ''u1'' ''g1'' ''$2b$x'' ''bearer1'' startup_db ''abcdefgh-anna''))"
proof -
  let ?s1 = "snd (google_auth 1 ''u1'' ''g1'' ''$2b$x'' ''bearer1'' startup_db ''abcdefgh-anna'')"
  have ok: "google_auth 1 ''u1'' ''g1'' ''$2b$x'' ''bearer1'' startup_db ''abcdefgh-anna'' =
     (Inr \<lparr>tr_access_token = ''bearer1'', tr_token_type = ''bearer'', tr_user_id = ''u1''\<rparr>, ?s1)"
    by (simp add: startup_db_google)
  have n1: "find_google_account startup_db ''abcdefgh-anna'' = None"
    and n2: "find_google_account startup_db ''abcdefgh-bert'' = None"
    by (simp_all add: find_google_account_def startup_db_eq empty_db_def)
  have d: "''abcdefgh-bert'' \<noteq> ''abcdefgh-anna''" and e: "''abcdefgh-bert'' \<noteq> []"
    and p: "take 8 ''abcdefgh-bert'' = take 8 ''abcdefgh-anna''"
    by simp_all
  note c = google_auth_prefix_collision[OF ok n1 n2 d e p, of 2 "''u2''" "''g2''" "''$2b$y''" "''bearer2''"]
  have m: "google_email ''abcdefgh-bert'' = ''google_abcdefgh@example.com''"
    "google_email ''abcdefgh-anna'' = ''google_abcdefgh@example.com''"
    by (simp_all add: google_email_def)
  have f: "fst (google_auth 1 ''u1'' ''g1'' ''$2b$x'' ''bearer1'' startup_db ''abcdefgh-anna'') =
     Inr \<lparr>tr_access_token = ''bearer1'', tr_token_type = ''bearer'', tr_user_id = ''u1''\<rparr>"
    by (simp add: startup_db_google)
  note l = c[THEN conjunct2, THEN conjunct2, THEN conjunct2, THEN conjunct2]
  show ?thesis by (intro conjI) (fact f n1 n2 d e p m l)+
qed

section \<open>What every request keeps\<close>

lemma grows_refl: "grows s s"
proof -
  have "users s = users s @ []" by simp
  moreover have "balances s = map (\<lambda>b. b) (balances s) @ [] \<and>
      (\<forall>b. b_user_id ((\<lambda>b. b) b) = b_user_id b)" by simp
  ultimately show ?thesis unfolding grows_def by blast
qed

lemma grows_trans:
  assumes "grows s s1" and "grows s1 s2"
  shows "grows s s2"
proof -
  from assms(1) obtain ys g zs where
    u1: "users s1 = users s @ ys" and b1: "balances s1 = map g (balances s) @ zs"
    and g: "\<forall>b. b_user_id (g b) = b_user_id b"
    unfolding grows_def by blast
  from assms(2) obtain ys' g' zs' where
    u2: "users s2 = users s1 @ ys'" and b2: "balances s2 = map g' (balances s1) @ zs'"
    and g': "\<forall>b. b_user_id (g' b) = b_user_id b"
    unfolding grows_def by blast
  have "users s2 = users s @ (ys @ ys')" by (simp add: u1 u2)
  moreover have "balances s2 = map (g' \<circ> g) (balances s) @ (map g' zs @ zs') \<and>
      (\<forall>b. b_user_id ((g' \<circ> g) b) = b_user_id b)"
    by (simp add: b1 b2 g g')
  ultimately show ?thesis unfolding grows_def by blast
qed

lemma grows_same_tables:
  assumes "users s' = users s" and "balances s' = balances s"
  shows "grows s s'"
proof -
  have "users s' = users s @ []" by (simp add: assms)
  moreover have "balances s' = map (\<lambda>b. b) (balances s) @ [] \<and>
      (\<forall>b. b_user_id ((\<lambda>b. b) b) = b_user_id b)" by (simp add: assms)
  ultimately show ?thesis unfolding grows_def by blast
qed

lemma grows_update:
  assumes "users s' = users s"
    and "balances s' = map (\<lambda>b. if b_user_id b = uid then f b else b) (balances s)"
    and "\<And>b. b_user_id (f b) = b_user_id b"
  shows "grows s s'"
proof -
  have "users s' = users s @ []" by (simp add: assms)
  moreover have "balances s' = map (\<lambda>b. if b_user_id b = uid then f b else b) (balances s) @ [] \<and>
      (\<forall>b. b_user_id ((\<lambda>b. if b_user_id b = uid then f b else b) b) = b_user_id b)"
    by (simp add: assms)
  ultimately show ?thesis unfolding grows_def by blast
qed

lemma grows_insert:
  assumes "users s' = users s @ [u]" and "balances s' = balances s @ [b]"
  shows "grows s s'"
proof -
  have "balances s' = map (\<lambda>b. b) (balances s) @ [b] \<and>
      (\<forall>b. b_user_id ((\<lambda>b. b) b) = b_user_id b)" by (simp add: assms)
  with assms(1) show ?thesis unfolding grows_def by blast
qed

lemma grows_register: "grows s (snd (register h now i s p))"
proof (cases "register h now i s p")
  case (Pair res s')
  show ?thesis
  proof (cases res)
    case (Inl e)
    with Pair have "s' = s" by (simp add: register_fail_unchanged)
    with Pair show ?thesis by (simp add: grows_refl)
  next
    case (Inr resp)
    with Pair have ok: "register h now i s p = (Inr resp, s')" by simp
    note s' = register_result(2)[OF ok]
    have "users s' = users s @ [registered_user h now i p]"
      and "balances s' = balances s @ [zero_balance i now]" by (simp_all add: s')
    then have "grows s s'" by (rule grows_insert)
    with Pair show ?thesis by simp
  qed
qed

lemma grows_google_auth: "grows s (snd (google_auth now i ai nh na s tok))"
proof (cases "find_google_account s tok")
  case (Some a)
  then show ?thesis by (simp add: google_auth_existing_unchanged grows_refl)
next
  case None
  show ?thesis
  proof (cases "google_auth now i ai nh na s tok")
    case (Pair res s')
    show ?thesis
    proof (cases res)
      case (Inl e)
      with Pair have "s' = s" by (simp add: google_auth_fail_unchanged)
      with Pair show ?thesis by (simp add: grows_refl)
    next
      case (Inr resp)
      with Pair have ok: "google_auth now i ai nh na s tok = (Inr resp, s')" by simp
      note s' = google_auth_new_result(2)[OF ok None]
      have "users s' = users s @ [google_user now i nh tok]"
        and "balances s' = balances s @ [zero_balance i now]" by (simp_all add: s')
      then have "grows s s'" by (rule grows_insert)
      with Pair show ?thesis by simp
    qed
  qed
qed

lemma grows_ads_start: "grows s (snd (ads_start now tok vid s uid aid))"
proof (cases "ads_start now tok vid s uid aid")
  case (Pair res s')
  show ?thesis
  proof (cases res)
    case (Inl e)
    with Pair have "s' = s" by (simp add: ads_start_fail_unchanged)
    with Pair show ?thesis by (simp add: grows_refl)
  next
    case (Inr resp)
    with Pair have ok: "ads_start now tok vid s uid aid = (Inr resp, s')" by simp
    from ads_start_InrD[OF ok] obtain unit where a: "db_get_AdUnit s aid = Some unit" by blast
    note s' = ads_start_result(2)[OF ok a]
    have "users s' = users s" and "balances s' = balances s" by (simp_all add: s')
    then have "grows s s'" by (rule grows_same_tables)
    with Pair show ?thesis by simp
  qed
qed

lemma grows_ads_complete: "grows s (snd (ads_complete now r tid s uid tok))"
proof (cases "ads_complete now r tid s uid tok")
  case (Pair res s')
  show ?thesis
  proof (cases res)
    case (Inl e)
    with Pair have "s' = s" by (simp add: ads_complete_fail_unchanged)
    with Pair show ?thesis by (simp add: grows_refl)
  next
    case (Inr resp)
    with Pair have ok: "ads_complete now r tid s uid tok = (Inr resp, s')" by simp
    from ads_complete_InrD[OF ok] obtain v bal where
      v: "find (\<lambda>v. av_session_token v = tok) (ad_views s) = Some v"
      and b: "user_balance s uid = Some bal" by blast
    note s' = ads_complete_result(2)[OF ok v b]
    have "users s' = users s"
      and "balances s' = map (\<lambda>b. if b_user_id b = uid
                                    then credited now (drawn_reward s v r) b else b) (balances s)"
      by (simp_all add: s')
    then have "grows s s'" by (rule grows_update) (simp add: credited_def)
    with Pair show ?thesis by simp
  qed
qed

lemma request_withdraw_result:
  assumes ok: "request_withdraw now wid tid s uid p = (Inr resp, s')"
  shows "s' = s\<lparr>balances := map (\<lambda>b. if b_user_id b = uid then debited now (wr_amount p) b else b)
                               (balances s),
               withdrawals := withdrawals s @ [pending_withdrawal wid uid p now],
               transactions := transactions s @ [spend_tx tid uid (wr_amount p) now]\<rparr>"
proof -
  from request_withdraw_InrD[OF ok] obtain user bal where
    c: "get_user s uid = Inr user" "user_balance s uid = Some bal"
       "10 \<le> wr_amount p" "wr_amount p \<le> b_available bal"
       "\<forall>x \<in> set (withdrawals s). w_id x \<noteq> wid" "\<forall>x \<in> set (transactions s). t_id x \<noteq> tid"
    by blast
  note eq = request_withdraw_eq[OF c, of now]
  have "s\<lparr>balances := map (\<lambda>b. if b_user_id b = uid then debited now (wr_amount p) b else b)
                               (balances s),
               withdrawals := withdrawals s @ [pending_withdrawal wid uid p now],
               transactions := transactions s @ [spend_tx tid uid (wr_amount p) now]\<rparr> = s'"
    using ok[unfolded eq] by (simp only: prod.inject)
  then show ?thesis by (rule sym)
qed

lemma grows_request_withdraw: "grows s (snd (request_withdraw now wid tid s uid p))"
proof (cases "request_withdraw now wid tid s uid p")
  case (Pair res s')
  show ?thesis
  proof (cases res)
    case (Inl e)
    with Pair have "s' = s" by (simp add: request_withdraw_fail_unchanged)
    with Pair show ?thesis by (simp add: grows_refl)
  next
    case (Inr resp)
    with Pair have ok: "request_withdraw now wid tid s uid p = (Inr resp, s')" by simp
    note s' = request_withdraw_result[OF ok]
    have "users s' = users s"
      and "balances s' = map (\<lambda>b. if b_user_id b = uid
                                    then debited now (wr_amount p) b else b) (balances s)"
      by (simp_all add: s')
    then have "grows s s'" by (rule grows_update) (simp add: debited_def)
    with Pair show ?thesis by simp
  qed
qed

lemma review_withdrawal_tables:
  "users (snd (review_withdrawal now s tok wid p)) = users s \<and>
   balances (snd (review_withdrawal now s tok wid p)) = balances s \<and>
   transactions (snd (review_withdrawal now s tok wid p)) = transactions s \<and>
   (\<exists>g. withdrawals (snd (review_withdrawal now s tok wid p)) = map g (withdrawals s) \<and>
        (\<forall>w. w_user_id (g w) = w_user_id w \<and> w_amount (g w) = w_amount w))"
proof (cases "require_admin tok = Inr () \<and> AdminWithdrawalReviewRequest_valid p \<and>
              db_get_Withdrawal s wid \<noteq> None")
  case True
  then obtain w where a: "require_admin tok = Inr ()" and v: "AdminWithdrawalReviewRequest_valid p"
    and w: "db_get_Withdrawal s wid = Some w" by auto
  let ?g = "\<lambda>x. if w_id x = wid then reviewed now p x else x"
  have e: "snd (review_withdrawal now s tok wid p) = s\<lparr>withdrawals := map ?g (withdrawals s)\<rparr>"
    by (simp add: review_withdrawal_eq[OF a v w])
  have "withdrawals (s\<lparr>withdrawals := map ?g (withdrawals s)\<rparr>) = map ?g (withdrawals s) \<and>
        (\<forall>w. w_user_id (?g w) = w_user_id w \<and> w_amount (?g w) = w_amount w)"
    by (simp add: reviewed_def)
  then have "\<exists>g. withdrawals (s\<lparr>withdrawals := map ?g (withdrawals s)\<rparr>) = map g (withdrawals s) \<and>
        (\<forall>w. w_user_id (g w) = w_user_id w \<and> w_amount (g w) = w_amount w)"
    by (intro exI[of _ ?g])
  then show ?thesis unfolding e by simp
next
  case False
  then have "snd (review_withdrawal now s tok wid p) = s"
    by (auto simp: review_withdrawal_def split: sum.splits option.splits)
  moreover have "\<exists>g. withdrawals s = map g (withdrawals s) \<and>
        (\<forall>w. w_user_id (g w) = w_user_id w \<and> w_amount (g w) = w_amount w)"
    by (rule exI[of _ "\<lambda>w. w"]) simp
  ultimately show ?thesis by simp
qed

lemma grows_review_withdrawal: "grows s (snd (review_withdrawal now s tok wid p))"
  using review_withdrawal_tables[of now s tok wid p] by (intro grows_same_tables) simp_all

lemma grows_handle: "grows s (handle s r)"
  by (cases r)
    (simp_all add: grows_register grows_google_auth grows_ads_start grows_ads_complete
      grows_request_withdraw grows_review_withdrawal)

lemma grows_run: "grows s (run s rs)"
  unfolding run_def
proof (induction rs arbitrary: s)
  case Nil
  show ?case by (simp add: grows_refl)
next
  case (Cons r rs)
  have "grows s (handle s r)" by (rule grows_handle)
  moreover have "grows (handle s r) (foldl handle (handle s r) rs)" by (rule Cons.IH)
  ultimately show ?case by (simp add: grows_trans)
qed

lemma grows_get_user:
  assumes "grows s s'" and "get_user s uid = Inr user"
  shows "get_user s' uid = Inr user"
proof -
  from assms(1) obtain ys where u: "users s' = users s @ ys" unfolding grows_def by blast
  from assms(2) have "find (\<lambda>u. u_id u = uid) (users s) = Some user"
    by (simp add: get_user_def db_get_User_def split: option.splits)
  then have "find (\<lambda>u. u_id u = uid) (users s') = Some user"
    unfolding u by (rule find_append_Some)
  then show ?thesis by (simp add: get_user_def db_get_User_def)
qed

lemma grows_email:
  assumes "grows s s'" and "find (\<lambda>u. u_email u = e) (users s) \<noteq> None"
  shows "find (\<lambda>u. u_email u = e) (users s') \<noteq> None"
proof -
  from assms(1) obtain ys where u: "users s' = users s @ ys" unfolding grows_def by blast
  from assms(2) obtain x where "find (\<lambda>u. u_email u = e) (users s) = Some x" by auto
  then have "find (\<lambda>u. u_email u = e) (users s') = Some x"
    unfolding u by (rule find_append_Some)
  then show ?thesis by simp
qed

lemma grows_user_balance:
  assumes "grows s s'" and "user_balance s uid \<noteq> None"
  shows "user_balance s' uid \<noteq> None"
proof -
  from assms(1) obtain g ys where b: "balances s' = map g (balances s) @ ys"
    and g: "\<forall>b. b_user_id (g b) = b_user_id b" unfolding grows_def by blast
  from assms(2) obtain x where x: "find (\<lambda>b. b_user_id b = uid) (balances s) = Some x"
    by (auto simp: user_balance_def)
  have "find (\<lambda>b. b_user_id b = uid) (map g (balances s)) =
        map_option g (find (\<lambda>b. b_user_id b = uid) (balances s))"
    by (rule find_map_preserve) (simp add: g)
  then have "find (\<lambda>b. b_user_id b = uid) (map g (balances s)) = Some (g x)" by (simp add: x)
  then have "find (\<lambda>b. b_user_id b = uid) (balances s') = Some (g x)"
    unfolding b by (rule find_append_Some)
  then show ?thesis by (simp add: user_balance_def)
qed

section \<open>Registering an email once\<close>

lemma get_balance_Inr:
  assumes "get_user s uid = Inr user" and "user_balance s uid \<noteq> None"
  shows "\<exists>b. get_balance s uid = Inr b"
  using assms get_user_InrD[OF assms(1)] by (auto simp: get_balance_def)

lemma register_persists:
  assumes ok: "register h now i s p = (Inr resp, s')"
  shows "get_user (run s' reqs) i = Inr (registered_user h now i p)"
    and "\<exists>b. get_balance (run s' reqs) i = Inr b"
    and "AuthRegisterRequest_valid p2 \<Longrightarrow> rr_email p2 = rr_email p \<Longrightarrow>
         register h2 now2 i2 (run s' reqs) p2 =
           (Inl (HTTPException 400 ''Email already used''), run s' reqs)"
proof -
  note c = register_InrD[OF ok]
  note s' = register_result(2)[OF ok]
  have us: "users s' = users s @ [registered_user h now i p]"
    and bs: "balances s' = balances s @ [zero_balance i now]" by (simp_all add: s')
  have "find (\<lambda>u. u_id u = i) (users s) = None" using c by (simp add: find_None_iff)
  then have "find (\<lambda>u. u_id u = i) (users s') = find (\<lambda>u. u_id u = i) [registered_user h now i p]"
    unfolding us by (rule find_append_None)
  then have u: "get_user s' i = Inr (registered_user h now i p)"
    by (simp add: get_user_def db_get_User_def registered_user_def)
  have "zero_balance i now \<in> set (balances s')" by (simp add: bs)
  moreover have "b_user_id (zero_balance i now) = i" by (simp add: zero_balance_def)
  ultimately have b: "user_balance s' i \<noteq> None"
    unfolding user_balance_def find_None_iff by blast
  have "registered_user h now i p \<in> set (users s')" by (simp add: us)
  moreover have "u_email (registered_user h now i p) = rr_email p"
    by (simp add: registered_user_def)
  ultimately have e: "find (\<lambda>u. u_email u = rr_email p) (users s') \<noteq> None"
    unfolding find_None_iff by blast
  note g = grows_run[of s' reqs]
  show u': "get_user (run s' reqs) i = Inr (registered_user h now i p)"
    using g u by (rule grows_get_user)
  have "user_balance (run s' reqs) i \<noteq> None" using g b by (rule grows_user_balance)
  with u' show "\<exists>b. get_balance (run s' reqs) i = Inr b" by (rule get_balance_Inr)
  have e': "find (\<lambda>u. u_email u = rr_email p) (users (run s' reqs)) \<noteq> None"
    using g e by (rule grows_email)
  show "AuthRegisterRequest_valid p2 \<Longrightarrow> rr_email p2 = rr_email p \<Longrightarrow>
         register h2 now2 i2 (run s' reqs) p2 =
           (Inl (HTTPException 400 ''Email already used''), run s' reqs)"
    using register_conflict[of p2 "run s' reqs" h2 now2 i2] e' by simp
qed

text \<open>
  C9. A successful registration appends exactly one user, with the given email and
  username and the hash of the password as credential, and one balance for it with
  available and pending both zero; nothing else changes. From then on, after any
  sequence of requests, the user id is still found with the same row and its balance can
  be queried, and every registration with that email (a payload that passes validation)
  fails with HTTP 400 ("Email already used") and leaves the store unchanged.
\<close>

theorem register_once:
  "\<forall>resp s'. register h now i s p = (Inr resp, s') \<longrightarrow>
     arr_user_id resp = i \<and>
     users s' = users s @
       [\<lparr>u_id = i, u_email = rr_email p, u_username = rr_username p,
         u_password_hash = h (rr_password p), u_is_active = True, u_created_at = now\<rparr>] \<and>
     balances s' = balances s @
       [\<lparr>b_user_id = i, b_available = 0, b_pending = 0, b_updated_at = now\<rparr>] \<and>
     auth_accounts s' = auth_accounts s \<and> ad_units s' = ad_units s \<and>
     ad_views s' = ad_views s \<and> transactions s' = transactions s \<and>
     withdrawals s' = withdrawals s \<and>
     (\<forall>reqs.
        get_user (run s' reqs) i =
          Inr \<lparr>u_id = i, u_email = rr_email p, u_username = rr_username p,
               u_password_hash = h (rr_password p), u_is_active = True, u_created_at = now\<rparr> \<and>
        (\<exists>b. get_balance (run s' reqs) i = Inr b) \<and>
        (\<forall>h2 now2 i2 p2. AuthRegisterRequest_valid p2 \<and> rr_email p2 = rr_email p \<longrightarrow>
           register h2 now2 i2 (run s' reqs) p2 =
             (Inl (HTTPException 400 ''Email already used''), run s' reqs)))"
proof (intro allI impI)
  fix resp s' assume ok: "register h now i s p = (Inr resp, s')"
  note resp = register_result(1)[OF ok]
  note s' = register_result(2)[OF ok]
  note per = register_persists[OF ok]
  have c1: "arr_user_id resp = i" by (simp add: resp)
  have c2: "users s' = users s @
       [\<lparr>u_id = i, u_email = rr_email p, u_username = rr_username p,
         u_password_hash = h (rr_password p), u_is_active = True, u_created_at = now\<rparr>]"
    by (simp add: s' registered_user_def)
  have c3: "balances s' = balances s @
       [\<lparr>b_user_id = i, b_available = 0, b_pending = 0, b_updated_at = now\<rparr>]"
    by (simp add: s' zero_balance_def)
  have c4: "auth_accounts s' = auth_accounts s" "ad_units s' = ad_units s"
     "ad_views s' = ad_views s" "transactions s' = transactions s"
     "withdrawals s' = withdrawals s"
    by (simp_all add: s')
  have c5: "\<forall>reqs.
        get_user (run s' reqs) i =
          Inr \<lparr>u_id = i, u_email = rr_email p, u_username = rr_username p,
               u_password_hash = h (rr_password p), u_is_active = True, u_created_at = now\<rparr> \<and>
        (\<exists>b. get_balance (run s' reqs) i = Inr b) \<and>
        (\<forall>h2 now2 i2 p2. AuthRegisterRequest_valid p2 \<and> rr_email p2 = rr_email p \<longrightarrow>
           register h2 now2 i2 (run s' reqs) p2 =
             (Inl (HTTPException 400 ''Email already used''), run s' reqs))"
  proof (intro allI conjI impI)
    fix reqs
    show "get_user (run s' reqs) i =
          Inr \<lparr>u_id = i, u_email = rr_email p, u_username = rr_username p,
               u_password_hash = h (rr_password p), u_is_active = True, u_created_at = now\<rparr>"
      using per(1)[of reqs] by (simp add: registered_user_def)
    show "\<exists>b. get_balance (run s' reqs) i = Inr b" by (rule per(2))
  next
    fix reqs h2 now2 i2 p2
    assume "AuthRegisterRequest_valid p2 \<and> rr_email p2 = rr_email p"
    then show "register h2 now2 i2 (run s' reqs) p2 =
             (Inl (HTTPException 400 ''Email already used''), run s' reqs)"
      using per(3)[of p2 h2 now2 i2 reqs] by simp
  qed
  show "arr_user_id resp = i \<and>
     users s' = users s @
       [\<lparr>u_id = i, u_email = rr_email p, u_username = rr_username p,
         u_password_hash = h (rr_password p), u_is_active = True, u_created_at = now\<rparr>] \<and>
     balances s' = balances s @
       [\<lparr>b_user_id = i, b_available = 0, b_pending = 0, b_updated_at = now\<rparr>] \<and>
     auth_accounts s' = auth_accounts s \<and> ad_units s' = ad_units s \<and>
     ad_views s' = ad_views s \<and> transactions s' = transactions s \<and>
     withdrawals s' = withdrawals s \<and>
     (\<forall>reqs.
        get_user (run s' reqs) i =
          Inr \<lparr>u_id = i, u_email = rr_email p, u_username = rr_username p,
               u_password_hash = h (rr_password p), u_is_active = True, u_created_at = now\<rparr> \<and>
        (\<exists>b. get_balance (run s' reqs) i = Inr b) \<and>
        (\<forall>h2 now2 i2 p2. AuthRegisterRequest_valid p2 \<and> rr_email p2 = rr_email p \<longrightarrow>
           register h2 now2 i2 (run s' reqs) p2 =
             (Inl (HTTPException 400 ''Email already used''), run s' reqs)))"
    by (intro conjI) (fact c1 c2 c3 c4 c5)+
qed

lemma carol_valid: "AuthRegisterRequest_valid carol_request"
  by (simp add: AuthRegisterRequest_valid_def carol_request_def)

lemma startup_db_register:
  "register rev 3 ''u1'' startup_db carol_request =
    (Inr \<lparr>arr_message = ''Registered successfully'', arr_user_id = ''u1'',
           arr_verification_required = True\<rparr>,
     startup_db\<lparr>users := [registered_user rev 3 ''u1'' carol_request],
       balances := [zero_balance ''u1'' 3]\<rparr>)"
proof -
  have e: "find (\<lambda>u. u_email u = rr_email carol_request) (users startup_db) = None"
    and u: "\<forall>x \<in> set (users startup_db). u_id x \<noteq> ''u1''"
    and b: "\<forall>x \<in> set (balances startup_db). b_user_id x \<noteq> ''u1''"
    by (simp_all add: startup_db_eq empty_db_def)
  show ?thesis unfolding register_eq[OF carol_valid e u b]
    by (simp add: startup_db_eq empty_db_def)
qed

theorem register_once_witness:
  "fst (register rev 3 ''u1'' startup_db carol_request) =
     Inr \<lparr>arr_message = ''Registered successfully'', arr_user_id = ''u1'',
          arr_verification_required = True\<rparr> \<and>
   map u_email (users (snd (register rev 3 ''u1'' startup_db carol_request))) =
     [''carol@example.com''] \<and>
   map u_password_hash (users (snd (register rev 3 ''u1'' startup_db carol_request))) =
     [''esroh tcerroc''] \<and>
   map b_available (balances (snd (register rev 3 ''u1'' startup_db carol_request))) = [0] \<and>
   map b_pending (balances (snd (register rev 3 ''u1'' startup_db carol_request))) = [0] \<and>
   AuthRegisterRequest_valid (carol_request\<lparr>rr_password := ''another one''\<rparr>) \<and>
   register rev 9 ''u2''
       (run (snd (register rev 3 ''u1'' startup_db carol_request))
            [AdsStart 4 ''tok1'' ''v1'' ''u1'' ''a1''])
       (carol_request\<lparr>rr_password := ''another one''\<rparr>) =
     (Inl (HTTPException 400 ''Email already used''),
      run (snd (register rev 3 ''u1'' startup_db carol_request))
          [AdsStart 4 ''tok1'' ''v1'' ''u1'' ''a1'']) \<and>
   map_sum id u_id
     (get_user (run (snd (register rev 3 ''u1'' startup_db carol_request))
                    [AdsStart 4 ''tok1'' ''v1'' ''u1'' ''a1'']) ''u1'') = Inr ''u1''"
proof -
  let ?s' = "snd (register rev 3 ''u1'' startup_db carol_request)"
  let ?resp = "\<lparr>arr_message = ''Registered successfully'', arr_user_id = ''u1'',
           arr_verification_required = True\<rparr>"
  let ?reqs = "[AdsStart 4 ''tok1'' ''v1'' ''u1'' ''a1'']"
  have ok: "register rev 3 ''u1'' startup_db carol_request = (Inr ?resp, ?s')"
    by (simp add: startup_db_register)
  note t = register_once[rule_format, OF ok]
  have f: "fst (register rev 3 ''u1'' startup_db carol_request) = Inr ?resp"
    by (simp add: startup_db_register)
  have us: "map u_email (users ?s') = [''carol@example.com'']"
    "map u_password_hash (users ?s') = [''esroh tcerroc'']"
    using t[THEN conjunct2, THEN conjunct1]
    by (simp_all add: startup_db_eq empty_db_def carol_request_def)
  have bs: "map b_available (balances ?s') = [0]" "map b_pending (balances ?s') = [0]"
    using t[THEN conjunct2, THEN conjunct2, THEN conjunct1]
    by (simp_all add: startup_db_eq empty_db_def)
  have v2: "AuthRegisterRequest_valid (carol_request\<lparr>rr_password := ''another one''\<rparr>)"
    by (simp add: AuthRegisterRequest_valid_def carol_request_def)
  note per = t[THEN conjunct2, THEN conjunct2, THEN conjunct2, THEN conjunct2, THEN conjunct2,
      THEN conjunct2, THEN conjunct2, THEN conjunct2, rule_format, of ?reqs]
  have again: "register rev 9 ''u2'' (run ?s' ?reqs) (carol_request\<lparr>rr_password := ''another one''\<rparr>) =
     (Inl (HTTPException 400 ''Email already used''), run ?s' ?reqs)"
    using per[THEN conjunct2, THEN conjunct2, rule_format,
        of "carol_request\<lparr>rr_password := ''another one''\<rparr>" rev 9 "''u2''"] v2
    by simp
  have gu: "map_sum id u_id (get_user (run ?s' ?reqs) ''u1'') = Inr ''u1''"
    using per[THEN conjunct1] by simp
  show ?thesis by (intro conjI) (fact f us bs v2 again gu)+
qed

section \<open>Reconciliation of balances with the ledger\<close>

lemma user_balance_append:
  "user_balance (s\<lparr>balances := balances s @ [b]\<rparr>) uid =
     (case user_balance s uid of
        Some x \<Rightarrow> Some x
      | None \<Rightarrow> if b_user_id b = uid then Some b else None)"
  by (cases "user_balance s uid")
    (simp_all add: user_balance_def find_append_None find_append_Some)




















end
